theory Spec2Isabelle
  imports Complex_Main
begin

section \<open>Hybrid retrieval: vector adapter, BM25 keyword search, weighted RRF fusion\<close>

text \<open>
  The development embeds \<^verbatim>\<open>src/vector_retriever.py\<close> and the constructor of
  \<^verbatim>\<open>RetrievalManager\<close> in \<^verbatim>\<open>src/rag_chat_agent.py\<close>.

  Conventions of the embedding:
  \<^item> Python \<^verbatim>\<open>int\<close> is \<^typ>\<open>int\<close> (or \<^typ>\<open>nat\<close> for lengths, counts and
    \<^verbatim>\<open>enumerate\<close> indices); Python \<^verbatim>\<open>float\<close> is \<^typ>\<open>real\<close>, so rounding of
    IEEE doubles is not part of the model.
  \<^item> A raised exception is the \<open>Inl\<close> branch of a result of type \<open>py_error + 'a\<close>.
  \<^item> A \<^verbatim>\<open>dict\<close> whose iteration order matters is an association list in insertion
    order; one that is only looked up is a map.
  \<^item> Result dictionaries with a fixed set of keys are records; a key that may be absent
    is an \<open>option\<close> field.
\<close>

subsection \<open>Python values and helpers\<close>

text \<open>
  The exceptions of the model, all of them subclasses of \<^verbatim>\<open>Exception\<close>, which is what
  the \<^verbatim>\<open>except Exception\<close> clauses of the source catch. \<open>UpstreamError\<close> stands for
  any exception of an external service or library (the dense search, the Pinecone
  client).
\<close>

datatype py_error =
  ValueError | ZeroDivisionError | IndexError | KeyError | ImportError | UpstreamError

datatype pyval = VStr string | VInt int

type_synonym pydict = "(string \<times> pyval) list"

record result =
  file_name :: string
  content :: string
  metadata :: pydict
  score :: "real option"
  weighted_rrf_score :: "real option"
  rerank_score :: "real option"
  rerank_position :: "nat option"

text \<open>\<^verbatim>\<open>a / b\<close> on floats raises \<^verbatim>\<open>ZeroDivisionError\<close> when \<^verbatim>\<open>b\<close> is zero.\<close>

definition py_div :: "real \<Rightarrow> real \<Rightarrow> py_error + real" where
  "py_div a b = (if b = 0 then Inl ZeroDivisionError else Inr (a / b))"

text \<open>\<^verbatim>\<open>math.log(x)\<close> raises \<^verbatim>\<open>ValueError\<close> (math domain error) unless \<^verbatim>\<open>x > 0\<close>.\<close>

definition py_log :: "real \<Rightarrow> py_error + real" where
  "py_log x = (if x \<le> 0 then Inl ValueError else Inr (ln x))"

text \<open>The slice \<^verbatim>\<open>xs[:n]\<close>: a negative \<^verbatim>\<open>n\<close> counts from the end.\<close>

definition py_slice_to :: "int \<Rightarrow> 'a list \<Rightarrow> 'a list" where
  "py_slice_to n xs =
     (if 0 \<le> n then take (nat n) xs else take (length xs - nat (- n)) xs)"

text \<open>
  \<^verbatim>\<open>d[k] = v\<close> on an insertion-ordered dictionary: an existing key keeps its position,
  a new key goes to the end.
\<close>

fun dict_set :: "('k \<times> 'v) list \<Rightarrow> 'k \<Rightarrow> 'v \<Rightarrow> ('k \<times> 'v) list" where
  "dict_set [] k v = [(k, v)]"
| "dict_set ((k', v') # kvs) k v =
     (if k' = k then (k, v) # kvs else (k', v') # dict_set kvs k v)"

text \<open>
  \<^verbatim>\<open>sorted(items, key=f, reverse=True)\<close>: Python's sort is stable also with
  \<^verbatim>\<open>reverse=True\<close>, so items with equal keys keep their input order. On numeric
  keys this is the stable ascending sort on the negated key.
\<close>

definition sorted_reverse :: "('a \<Rightarrow> real) \<Rightarrow> 'a list \<Rightarrow> 'a list" where
  "sorted_reverse f xs = sort_key (\<lambda>x. - f x) xs"

subsection \<open>RRFReranker\<close>

record RRFReranker =
  self_k :: int

text \<open>\<^verbatim>\<open>def __init__(self, k: int = 60)\<close>; \<open>None\<close> stands for the omitted argument.\<close>

definition RRFReranker_init :: "int option \<Rightarrow> RRFReranker" where
  "RRFReranker_init k = \<lparr>self_k = (case k of None \<Rightarrow> 60 | Some v \<Rightarrow> v)\<rparr>"

type_synonym doc_scores = "(string \<times> real) list"
type_synonym doc_info = "string \<rightharpoonup> result"

text \<open>The body of the inner loop of \<^verbatim>\<open>rerank_with_weights\<close> for one ranked result.\<close>

definition score_one ::
  "int \<Rightarrow> real \<Rightarrow> nat \<Rightarrow> result \<Rightarrow> doc_scores \<times> doc_info \<Rightarrow> py_error + doc_scores \<times> doc_info"
where
  "score_one k weight rank r st =
     (case py_div 1 (real_of_int (int rank + 1 + k)) of
        Inl e \<Rightarrow> Inl e
      | Inr q \<Rightarrow>
          (let weighted = weight * q; c = content r in
           case map_of (fst st) c of
             Some old \<Rightarrow> Inr (dict_set (fst st) c (old + weighted), snd st)
           | None \<Rightarrow> Inr (dict_set (fst st) c weighted, (snd st)(c \<mapsto> r))))"

text \<open>\<^verbatim>\<open>for rank, result in enumerate(results)\<close>, from index \<open>rank\<close> on.\<close>

fun score_results ::
  "int \<Rightarrow> real \<Rightarrow> nat \<Rightarrow> result list \<Rightarrow> doc_scores \<times> doc_info \<Rightarrow> py_error + doc_scores \<times> doc_info"
where
  "score_results k weight rank [] st = Inr st"
| "score_results k weight rank (r # rs) st =
     (case score_one k weight rank r st of
        Inl e \<Rightarrow> Inl e
      | Inr st' \<Rightarrow> score_results k weight (Suc rank) rs st')"

text \<open>\<^verbatim>\<open>for results, weight in zip(result_lists, weights)\<close>.\<close>

fun score_lists ::
  "int \<Rightarrow> (result list \<times> real) list \<Rightarrow> doc_scores \<times> doc_info \<Rightarrow> py_error + doc_scores \<times> doc_info"
where
  "score_lists k [] st = Inr st"
| "score_lists k ((results, weight) # rest) st =
     (case score_results k weight 0 results st of
        Inl e \<Rightarrow> Inl e
      | Inr st' \<Rightarrow> score_lists k rest st')"

text \<open>
  The output loop: \<^verbatim>\<open>result = doc_info[content].copy()\<close>, then the fused score is
  stored under \<^verbatim>\<open>'weighted_rrf_score'\<close>.
\<close>

fun format_fused :: "doc_info \<Rightarrow> (string \<times> real) list \<Rightarrow> py_error + result list" where
  "format_fused di [] = Inr []"
| "format_fused di ((c, s) # rest) =
     (case di c of
        None \<Rightarrow> Inl KeyError
      | Some r \<Rightarrow>
          (case format_fused di rest of
             Inl e \<Rightarrow> Inl e
           | Inr out \<Rightarrow> Inr (r\<lparr>weighted_rrf_score := Some s\<rparr> # out)))"

definition rerank_with_weights ::
  "RRFReranker \<Rightarrow> result list list \<Rightarrow> real list \<Rightarrow> int \<Rightarrow> py_error + result list"
where
  "rerank_with_weights self result_lists weights top_k =
     (if length result_lists \<noteq> length weights then Inl ValueError
      else
        case score_lists (self_k self) (zip result_lists weights) ([], Map.empty) of
          Inl e \<Rightarrow> Inl e
        | Inr (ds, di) \<Rightarrow> format_fused di (py_slice_to top_k (sorted_reverse snd ds)))"


subsection \<open>Strings\<close>

text \<open>
  A Python string is a list of characters. \<open>py_isspace\<close> is \<^verbatim>\<open>str.isspace\<close> on the
  code points below 256, which is what \<^verbatim>\<open>strip()\<close> and \<^verbatim>\<open>split()\<close> without
  arguments remove.
\<close>

definition py_isspace :: "char \<Rightarrow> bool" where
  "py_isspace c = ((of_char c :: nat) \<in> {9, 10, 11, 12, 13, 28, 29, 30, 31, 32, 133, 160})"

definition py_strip :: "string \<Rightarrow> string" where
  "py_strip s = rev (dropWhile py_isspace (rev (dropWhile py_isspace s)))"

fun split_ws :: "string \<Rightarrow> string \<Rightarrow> string list" where
  "split_ws cur [] = (if cur = [] then [] else [cur])"
| "split_ws cur (c # cs) =
     (if py_isspace c then (if cur = [] then split_ws [] cs else cur # split_ws [] cs)
      else split_ws (cur @ [c]) cs)"

definition py_split :: "string \<Rightarrow> string list" where
  "py_split s = split_ws [] s"

fun py_join :: "string \<Rightarrow> string list \<Rightarrow> string" where
  "py_join sep [] = []"
| "py_join sep [x] = x"
| "py_join sep (x # y # ys) = x @ sep @ py_join sep (y # ys)"

definition is_digit :: "char \<Rightarrow> bool" where
  "is_digit c = (48 \<le> (of_char c :: nat) \<and> (of_char c :: nat) \<le> 57)"

definition int_of_digits :: "string \<Rightarrow> int" where
  "int_of_digits ds = foldl (\<lambda>n c. 10 * n + (int (of_char c) - 48)) 0 ds"

fun str_of_nat :: "nat \<Rightarrow> string" where
  "str_of_nat n =
     (if n < 10 then [char_of (48 + n)]
      else str_of_nat (n div 10) @ [char_of (48 + n mod 10)])"

declare str_of_nat.simps [simp del]

text \<open>
  \<^verbatim>\<open>re.search(r"OCR_page_(\d+)_", s)\<close>, returning group 1. At a given start the
  greedy \<^verbatim>\<open>\d+\<close> takes the whole run of digits; giving digits back cannot help, since
  the character after a shorter run is a digit and not the underscore.
\<close>

definition match_page :: "string \<Rightarrow> string option" where
  "match_page s =
     (if take 9 s = ''OCR_page_'' then
        (let ds = takeWhile is_digit (drop 9 s); rest = dropWhile is_digit (drop 9 s)
         in if ds \<noteq> [] \<and> take 1 rest = ''_'' then Some ds else None)
      else None)"

fun search_page :: "string \<Rightarrow> string option" where
  "search_page [] = None"
| "search_page (c # cs) =
     (case match_page (c # cs) of Some ds \<Rightarrow> Some ds | None \<Rightarrow> search_page cs)"

subsection \<open>VecRetriever\<close>

text \<open>
  A raw record of the dense search is an object with a \<^verbatim>\<open>payload\<close> attribute (and
  possibly a \<^verbatim>\<open>score\<close> attribute), a dictionary, or anything else. The payload written
  by \<^verbatim>\<open>QdrantDB.save_text\<close> holds \<^verbatim>\<open>text\<close>, \<^verbatim>\<open>source_file\<close> and extra entries.
\<close>

record payload =
  p_text :: "string option"
  p_source_file :: "string option"
  p_extra :: pydict

record dict_item =
  d_text :: "string option"
  d_content :: "string option"
  d_source_file :: "string option"
  d_file_name :: "string option"
  d_score :: "real option"
  d_metadata :: "pydict option"

datatype raw_item = PayloadItem payload "real option" | DictItem dict_item | OtherItem

text \<open>\<^verbatim>\<open>d.get(key, default)\<close> on an optional field.\<close>

definition get_or :: "'a option \<Rightarrow> 'a \<Rightarrow> 'a" where
  "get_or v d = (case v of None \<Rightarrow> d | Some x \<Rightarrow> x)"

text \<open>\<^verbatim>\<open>dict(payload)\<close>.\<close>

definition payload_dict :: "payload \<Rightarrow> pydict" where
  "payload_dict p =
     (case p_text p of None \<Rightarrow> [] | Some s \<Rightarrow> [(''text'', VStr s)]) @
     (case p_source_file p of None \<Rightarrow> [] | Some s \<Rightarrow> [(''source_file'', VStr s)]) @
     p_extra p"

text \<open>
  The first half of the loop body of \<^verbatim>\<open>VecRetriever.search\<close>: content, source, score
  and metadata of a raw record; \<open>None\<close> is the \<^verbatim>\<open>continue\<close> branch.
\<close>

fun extract_item :: "raw_item \<Rightarrow> (string \<times> string \<times> real option \<times> pydict) option" where
  "extract_item (PayloadItem p sc) =
     Some (get_or (p_text p) '''', get_or (p_source_file p) ''unknown'', sc, payload_dict p)"
| "extract_item (DictItem d) =
     Some (if get_or (d_text d) '''' \<noteq> '''' then get_or (d_text d) ''''
             else get_or (d_content d) '''',
           if get_or (d_source_file d) '''' \<noteq> '''' then get_or (d_source_file d) ''''
             else get_or (d_file_name d) ''unknown'',
           d_score d,
           get_or (d_metadata d) [])"
| "extract_item OtherItem = None"

text \<open>
  The loop over the raw records. The state is \<^verbatim>\<open>results\<close> and \<^verbatim>\<open>seen_contents\<close>;
  \<open>hash\<close> is Python's built-in \<^verbatim>\<open>hash\<close> on strings.
\<close>

fun collect_results ::
  "(string \<Rightarrow> int) \<Rightarrow> raw_item list \<Rightarrow> result list \<times> int set \<Rightarrow> result list \<times> int set"
where
  "collect_results hash [] st = st"
| "collect_results hash (item # items) (results, seen_contents) =
     (case extract_item item of
        None \<Rightarrow> collect_results hash items (results, seen_contents)
      | Some (c, source, sc, meta) \<Rightarrow>
          if c \<noteq> '''' \<and> hash c \<notin> seen_contents then
            collect_results hash items
              (results @ [\<lparr>file_name = source, content = c, metadata = meta, score = sc,
                           weighted_rrf_score = None, rerank_score = None,
                           rerank_position = None\<rparr>],
               insert (hash c) seen_contents)
          else collect_results hash items (results, seen_contents))"

text \<open>
  \<open>vr_query\<close> is \<^verbatim>\<open>self.vector_retriever.query(query, top_k, similarity_threshold)\<close>,
  the dense search of the CAMEL library.
\<close>

record VecRetriever =
  vr_query :: "string \<Rightarrow> int \<Rightarrow> real \<Rightarrow> py_error + raw_item list"

definition VecRetriever_search ::
  "(string \<Rightarrow> int) \<Rightarrow> VecRetriever \<Rightarrow> string \<Rightarrow> int \<Rightarrow> py_error + result list"
where
  "VecRetriever_search hash self question top_k =
     (case vr_query self question top_k 0.5 of
        Inl e \<Rightarrow> Inl e
      | Inr raw_results \<Rightarrow> Inr (fst (collect_results hash raw_results ([], {}))))"

subsection \<open>KeywordRetriever\<close>

record document =
  doc_content :: string
  doc_source :: "string option"

text \<open>
  A \<^verbatim>\<open>defaultdict(int)\<close> is a map read with default 0. Reading a missing key also
  stores 0 under it, which no later read can tell from the key being absent, so reads
  leave the map as it is.
\<close>

definition dd_get :: "('k \<rightharpoonup> nat) \<Rightarrow> 'k \<Rightarrow> nat" where
  "dd_get m key = (case m key of None \<Rightarrow> 0 | Some n \<Rightarrow> n)"

definition dd_incr :: "'k \<Rightarrow> ('k \<rightharpoonup> nat) \<Rightarrow> ('k \<rightharpoonup> nat)" where
  "dd_incr key m = m(key \<mapsto> dd_get m key + 1)"

record KeywordRetriever =
  documents :: "document list"
  document_terms :: "string list list"
  term_doc_freq :: "string \<rightharpoonup> nat"
  avg_doc_length :: real
  doc_lengths :: "nat list"
  bm25_k1 :: real
  bm25_b :: real
  stop_words :: "string set"

text \<open>
  \<^verbatim>\<open>_preprocess_text\<close>. The parameter \<open>segment\<close> stands for
  \<^verbatim>\<open>jieba.cut(re.sub(..., ' ', text).lower())\<close>: the clean-up of the characters outside
  the allowed alphabet, the lower-casing and the word segmentation of the jieba library.
  The filter on the stripped terms is the list comprehension of the source.
\<close>

definition preprocess_text ::
  "(string \<Rightarrow> string list) \<Rightarrow> KeywordRetriever \<Rightarrow> string \<Rightarrow> string list"
where
  "preprocess_text segment self text_in =
     map py_strip
       (filter (\<lambda>term. py_strip term \<noteq> [] \<and> length (py_strip term) > 1 \<and>
                        py_strip term \<notin> stop_words self)
          (segment text_in))"

text \<open>
  The loop of \<^verbatim>\<open>_build_index\<close> over \<^verbatim>\<open>self.documents\<close>. The inner loop runs over
  \<^verbatim>\<open>set(terms)\<close>, every distinct term once; the increments commute, so the order in
  which the set is walked does not matter.
\<close>

fun index_documents ::
  "(string \<Rightarrow> string list) \<Rightarrow> document list \<Rightarrow> KeywordRetriever \<Rightarrow> KeywordRetriever"
where
  "index_documents segment [] self = self"
| "index_documents segment (doc # docs) self =
     (let terms = preprocess_text segment self (doc_content doc) in
      index_documents segment docs
        (self\<lparr>document_terms := document_terms self @ [terms],
              doc_lengths := doc_lengths self @ [length terms],
              term_doc_freq := fold dd_incr (remdups terms) (term_doc_freq self)\<rparr>))"

text \<open>
  \<^verbatim>\<open>_build_index\<close> returns the updated retriever and the exception raised, if any:
  the three index fields are reset and refilled before the average is computed, so an
  exception in the last statement would leave them updated and the average stale.
\<close>

definition build_index ::
  "(string \<Rightarrow> string list) \<Rightarrow> KeywordRetriever \<Rightarrow> KeywordRetriever \<times> py_error option"
where
  "build_index segment self =
     (let self1 = index_documents segment (documents self)
                    (self\<lparr>document_terms := [], doc_lengths := [], term_doc_freq := Map.empty\<rparr>)
      in if doc_lengths self1 \<noteq> [] then
           (case py_div (real (sum_list (doc_lengths self1))) (real (length (doc_lengths self1))) of
              Inl e \<Rightarrow> (self1, Some e)
            | Inr avg \<Rightarrow> (self1\<lparr>avg_doc_length := avg\<rparr>, None))
         else (self1\<lparr>avg_doc_length := 0\<rparr>, None))"

text \<open>
  \<^verbatim>\<open>__init__(self, documents=None)\<close>. The stop-word set is the value of
  \<^verbatim>\<open>_initialize_stopwords()\<close>: the set of the optional pystopwords package, or the
  built-in table.
\<close>

definition KeywordRetriever_init ::
  "(string \<Rightarrow> string list) \<Rightarrow> string set \<Rightarrow> document list option \<Rightarrow>
   KeywordRetriever \<times> py_error option"
where
  "KeywordRetriever_init segment stops docs =
     (let self = \<lparr>documents = (case docs of None \<Rightarrow> [] | Some ds \<Rightarrow> ds),
                  document_terms = [], term_doc_freq = Map.empty, avg_doc_length = 0,
                  doc_lengths = [], bm25_k1 = 1.5, bm25_b = 0.75, stop_words = stops\<rparr>
      in if documents self \<noteq> [] then build_index segment self else (self, None))"

definition add_documents ::
  "(string \<Rightarrow> string list) \<Rightarrow> KeywordRetriever \<Rightarrow> document list \<Rightarrow>
   KeywordRetriever \<times> py_error option"
where
  "add_documents segment self docs =
     build_index segment (self\<lparr>documents := documents self @ docs\<rparr>)"

text \<open>\<^verbatim>\<open>xs[i]\<close> for an index that is not negative.\<close>

definition py_index :: "'a list \<Rightarrow> nat \<Rightarrow> py_error + 'a" where
  "py_index xs i = (if i < length xs then Inr (xs ! i) else Inl IndexError)"

text \<open>
  The loop of \<^verbatim>\<open>_calculate_bm25_score\<close> over the query terms. \<open>term_freq\<close> is the
  local \<^verbatim>\<open>defaultdict\<close> of term counts of the document; \<^verbatim>\<open>term in term_freq\<close> asks
  for the key only.
\<close>

fun score_terms ::
  "KeywordRetriever \<Rightarrow> (string \<rightharpoonup> nat) \<Rightarrow> nat \<Rightarrow> string list \<Rightarrow> real \<Rightarrow> py_error + real"
where
  "score_terms self term_freq doc_length [] acc = Inr acc"
| "score_terms self term_freq doc_length (term # rest) acc =
     (case term_freq term of
        None \<Rightarrow> score_terms self term_freq doc_length rest acc
      | Some tf \<Rightarrow>
          (let df = dd_get (term_doc_freq self) term in
           case py_div (real_of_int (int (length (documents self)) - int df) + 0.5)
                       (real df + 0.5) of
             Inl e \<Rightarrow> Inl e
           | Inr x \<Rightarrow>
           (case py_log x of
              Inl e \<Rightarrow> Inl e
            | Inr idf \<Rightarrow>
            (case py_div (real doc_length) (avg_doc_length self) of
               Inl e \<Rightarrow> Inl e
             | Inr ratio \<Rightarrow>
             (case py_div (real tf * (bm25_k1 self + 1))
                          (real tf + bm25_k1 self * (1 - bm25_b self + bm25_b self * ratio)) of
                Inl e \<Rightarrow> Inl e
              | Inr tf_component \<Rightarrow>
                  score_terms self term_freq doc_length rest (acc + idf * tf_component))))))"

definition calculate_bm25_score ::
  "KeywordRetriever \<Rightarrow> string list \<Rightarrow> nat \<Rightarrow> py_error + real"
where
  "calculate_bm25_score self query_terms doc_idx =
     (case py_index (document_terms self) doc_idx of
        Inl e \<Rightarrow> Inl e
      | Inr doc_terms \<Rightarrow>
        (case py_index (doc_lengths self) doc_idx of
           Inl e \<Rightarrow> Inl e
         | Inr doc_length \<Rightarrow>
             score_terms self (fold dd_incr doc_terms Map.empty) doc_length query_terms 0))"

text \<open>The first loop of \<^verbatim>\<open>search\<close>, over the document indices.\<close>

fun score_documents ::
  "KeywordRetriever \<Rightarrow> string list \<Rightarrow> nat list \<Rightarrow> (nat \<times> real) list \<Rightarrow>
   py_error + (nat \<times> real) list"
where
  "score_documents self query_terms [] doc_scores = Inr doc_scores"
| "score_documents self query_terms (i # rest) doc_scores =
     (case calculate_bm25_score self query_terms i of
        Inl e \<Rightarrow> Inl e
      | Inr s \<Rightarrow>
          score_documents self query_terms rest
            (if s > 0 then doc_scores @ [(i, s)] else doc_scores))"

text \<open>The body of the second loop of \<^verbatim>\<open>search\<close>: one result dictionary.\<close>

definition keyword_result :: "document \<Rightarrow> real \<Rightarrow> result" where
  "keyword_result doc s =
     (let clean_content = py_join '' '' (py_split (doc_content doc));
          source_text = get_or (doc_source doc) '''';
          source_preview =
            (if py_strip source_text \<noteq> [] then py_strip source_text
             else if length clean_content > 80 then take 80 clean_content @ ''...''
             else clean_content);
          meta = (case search_page source_preview of
                    Some ds \<Rightarrow> [(''page_idx'', VInt (int_of_digits ds))]
                  | None \<Rightarrow> [])
      in \<lparr>file_name = source_preview, content = doc_content doc, metadata = meta,
          score = Some s, weighted_rrf_score = None, rerank_score = None,
          rerank_position = None\<rparr>)"

fun format_keyword :: "KeywordRetriever \<Rightarrow> (nat \<times> real) list \<Rightarrow> py_error + result list" where
  "format_keyword self [] = Inr []"
| "format_keyword self ((doc_idx, s) # rest) =
     (case py_index (documents self) doc_idx of
        Inl e \<Rightarrow> Inl e
      | Inr doc \<Rightarrow>
          (case format_keyword self rest of
             Inl e \<Rightarrow> Inl e
           | Inr out \<Rightarrow> Inr (keyword_result doc s # out)))"

definition KeywordRetriever_search ::
  "(string \<Rightarrow> string list) \<Rightarrow> KeywordRetriever \<Rightarrow> string \<Rightarrow> int \<Rightarrow> py_error + result list"
where
  "KeywordRetriever_search segment self query top_k =
     (if documents self = [] then Inr []
      else
        let query_terms = preprocess_text segment self query in
        if query_terms = [] then Inr []
        else
          case score_documents self query_terms [0..<length (documents self)] [] of
            Inl e \<Rightarrow> Inl e
          | Inr doc_scores \<Rightarrow>
              format_keyword self (py_slice_to top_k (sorted_reverse snd doc_scores)))"

subsection \<open>PineconeCohereReranker\<close>

text \<open>
  One entry of the remote answer's \<^verbatim>\<open>data\<close>: its \<^verbatim>\<open>index\<close> (absent, or not an
  integer: \<open>None\<close>) and its \<^verbatim>\<open>score\<close> (absent, or not a number: \<open>None\<close>).
\<close>

datatype resp_item = RespItem (resp_index: "int option") (resp_score: "real option")

text \<open>
  The client's \<^verbatim>\<open>inference.rerank(model, query, documents, top_n)\<close>: a remote call
  that raises or answers with the list \<^verbatim>\<open>data\<close> (empty when the answer has none).
\<close>

type_synonym pinecone_client =
  "string \<Rightarrow> string \<Rightarrow> (string \<times> string) list \<Rightarrow> int \<Rightarrow> py_error + resp_item list"

record PineconeCohereReranker =
  client :: pinecone_client
  model :: string

text \<open>
  \<^verbatim>\<open>__init__(self, api_key, model="cohere-rerank-3.5")\<close>. \<open>Pinecone\<close> is the module
  level name: \<open>None\<close> when the import of the package failed, else the constructor of
  the client, which may raise.
\<close>

definition PineconeCohereReranker_init ::
  "(string \<Rightarrow> py_error + pinecone_client) option \<Rightarrow> string \<Rightarrow> string option \<Rightarrow>
   py_error + PineconeCohereReranker"
where
  "PineconeCohereReranker_init Pinecone api_key model_arg =
     (case Pinecone of
        None \<Rightarrow> Inl ImportError
      | Some make_client \<Rightarrow>
          if py_strip api_key = [] then Inl ValueError
          else
            (case make_client api_key of
               Inl e \<Rightarrow> Inl e
             | Inr c \<Rightarrow> Inr \<lparr>client = c, model = get_or model_arg ''cohere-rerank-3.5''\<rparr>))"

text \<open>The loop over the answer, \<^verbatim>\<open>enumerate(data, start=1)\<close> from \<open>rank\<close> on.\<close>

fun reorder :: "result list \<Rightarrow> nat \<Rightarrow> resp_item list \<Rightarrow> result list" where
  "reorder results rank [] = []"
| "reorder results rank (item # items) =
     (case resp_index item of
        None \<Rightarrow> reorder results (Suc rank) items
      | Some idx \<Rightarrow>
          if 0 \<le> idx \<and> idx < int (length results) then
            (let r = results ! nat idx;
                 r1 = (case resp_score item of
                         None \<Rightarrow> r
                       | Some s \<Rightarrow> r\<lparr>rerank_score := Some s\<rparr>)
             in r1\<lparr>rerank_position := Some rank\<rparr> # reorder results (Suc rank) items)
          else reorder results (Suc rank) items)"

definition PineconeCohereReranker_rerank ::
  "PineconeCohereReranker \<Rightarrow> string \<Rightarrow> result list \<Rightarrow> int option \<Rightarrow> py_error + result list"
where
  "PineconeCohereReranker_rerank self query results top_n =
     (if results = [] then Inr []
      else
        let docs = map (\<lambda>(i, item). (str_of_nat i, py_strip (content item)))
                     (enumerate 0 results);
            n = int (length docs);
            k = min (case top_n of None \<Rightarrow> n | Some t \<Rightarrow> if t = 0 then n else t) n
        in case client self (model self) query docs k of
             Inl e \<Rightarrow> Inl e
           | Inr data \<Rightarrow> Inr (reorder results 1 data))"

subsection \<open>EnhancedHybridRetriever\<close>

record EnhancedHybridRetriever =
  vector_retriever :: VecRetriever
  keyword_retriever :: KeywordRetriever
  reranker :: RRFReranker
  vector_weight :: real
  keyword_weight :: real
  external_reranker :: "PineconeCohereReranker option"

text \<open>
  \<^verbatim>\<open>__init__(..., rrf_k=60, vector_weight=1.0, keyword_weight=1.0,
  external_reranker=None)\<close>; an omitted argument is \<open>None\<close>.
\<close>

definition EnhancedHybridRetriever_init ::
  "VecRetriever \<Rightarrow> KeywordRetriever \<Rightarrow> int option \<Rightarrow> real option \<Rightarrow> real option \<Rightarrow>
   PineconeCohereReranker option \<Rightarrow> EnhancedHybridRetriever"
where
  "EnhancedHybridRetriever_init vr kr rrf_k vw kw ext =
     \<lparr>vector_retriever = vr, keyword_retriever = kr,
      reranker = RRFReranker_init (Some (get_or rrf_k 60)),
      vector_weight = get_or vw 1, keyword_weight = get_or kw 1,
      external_reranker = ext\<rparr>"

definition EnhancedHybridRetriever_search ::
  "(string \<Rightarrow> int) \<Rightarrow> (string \<Rightarrow> string list) \<Rightarrow> EnhancedHybridRetriever \<Rightarrow> string \<Rightarrow> int \<Rightarrow>
   py_error + result list"
where
  "EnhancedHybridRetriever_search hash segment self query top_k =
     (case VecRetriever_search hash (vector_retriever self) query top_k of
        Inl e \<Rightarrow> Inl e
      | Inr vector_results \<Rightarrow>
        (case KeywordRetriever_search segment (keyword_retriever self) query top_k of
           Inl e \<Rightarrow> Inl e
         | Inr keyword_results \<Rightarrow>
           (case rerank_with_weights (reranker self) [vector_results, keyword_results]
                   [vector_weight self, keyword_weight self] top_k of
              Inl e \<Rightarrow> Inl e
            | Inr reranked_results \<Rightarrow>
                (case external_reranker self of
                   None \<Rightarrow> Inr reranked_results
                 | Some ext \<Rightarrow>
                     if reranked_results \<noteq> [] then
                       PineconeCohereReranker_rerank ext query reranked_results (Some top_k)
                     else Inr reranked_results))))"

subsection \<open>RAGConfig and RetrievalManager\<close>

text \<open>The fields of the configuration that retrieval reads, with their defaults.\<close>

record RAGConfig =
  cfg_reranker_model :: string
  cfg_vector_weight :: real
  cfg_keyword_weight :: real
  cfg_rrf_k :: int
  cfg_enable_reranking :: bool

definition RAGConfig_default :: RAGConfig where
  "RAGConfig_default =
     \<lparr>cfg_reranker_model = ''cohere-rerank-3.5'', cfg_vector_weight = 0.5,
      cfg_keyword_weight = 0.5, cfg_rrf_k = 20, cfg_enable_reranking = True\<rparr>"

record RetrievalManager =
  rm_config :: RAGConfig
  rm_vector_retriever :: VecRetriever
  rm_keyword_retriever :: KeywordRetriever
  rm_hybrid_retriever :: EnhancedHybridRetriever

text \<open>
  \<^verbatim>\<open>_initialize_keyword_retriever\<close>: \<open>loaded\<close> is the list returned by
  \<^verbatim>\<open>load_documents_from_json()\<close>; an exception of \<^verbatim>\<open>add_documents\<close> is swallowed and
  the retriever stays as the failed call left it.
\<close>

definition initialize_keyword_retriever ::
  "(string \<Rightarrow> string list) \<Rightarrow> KeywordRetriever \<Rightarrow> document list \<Rightarrow> KeywordRetriever"
where
  "initialize_keyword_retriever segment kr loaded =
     (if loaded \<noteq> [] then fst (add_documents segment kr loaded) else kr)"

text \<open>
  The block of \<^verbatim>\<open>RetrievalManager.__init__\<close> that creates the external reranker.
  \<open>env_key\<close> is \<^verbatim>\<open>os.getenv("PINECONE_API_KEY", "")\<close>. Every exception of the
  constructor is caught by \<^verbatim>\<open>except Exception\<close>.
\<close>

definition create_external_reranker ::
  "RAGConfig \<Rightarrow> (string \<Rightarrow> py_error + pinecone_client) option \<Rightarrow> string option \<Rightarrow> string \<Rightarrow>
   PineconeCohereReranker option"
where
  "create_external_reranker config Pinecone pinecone_api_key env_key =
     (if cfg_enable_reranking config then
        (let pinecone_key =
               py_strip (if get_or pinecone_api_key '''' \<noteq> '''' then get_or pinecone_api_key ''''
                         else env_key)
         in if pinecone_key \<noteq> [] then
              (case PineconeCohereReranker_init Pinecone pinecone_key
                      (Some (cfg_reranker_model config)) of
                 Inl e \<Rightarrow> None
               | Inr r \<Rightarrow> Some r)
            else None)
      else None)"

text \<open>
  \<^verbatim>\<open>RetrievalManager.__init__\<close>. \<open>vec\<close> is the outcome of \<^verbatim>\<open>VecRetriever(qdrant_db)\<close>,
  whose exception is not caught; \<open>stops\<close> is the stop-word set of the new
  \<^verbatim>\<open>KeywordRetriever()\<close>.
\<close>

definition RetrievalManager_init ::
  "(string \<Rightarrow> string list) \<Rightarrow> string set \<Rightarrow> (string \<Rightarrow> py_error + pinecone_client) option \<Rightarrow>
   string \<Rightarrow> RAGConfig \<Rightarrow> document list \<Rightarrow> py_error + VecRetriever \<Rightarrow> string option \<Rightarrow>
   py_error + RetrievalManager"
where
  "RetrievalManager_init segment stops Pinecone env_key config loaded vec pinecone_api_key =
     (case vec of
        Inl e \<Rightarrow> Inl e
      | Inr vr \<Rightarrow>
          (let kr = initialize_keyword_retriever segment
                      (fst (KeywordRetriever_init segment stops None)) loaded;
               ext = create_external_reranker config Pinecone pinecone_api_key env_key
           in Inr \<lparr>rm_config = config, rm_vector_retriever = vr, rm_keyword_retriever = kr,
                   rm_hybrid_retriever =
                     EnhancedHybridRetriever_init vr kr (Some (cfg_rrf_k config))
                       (Some (cfg_vector_weight config)) (Some (cfg_keyword_weight config))
                       ext\<rparr>))"

definition RetrievalManager_search ::
  "(string \<Rightarrow> int) \<Rightarrow> (string \<Rightarrow> string list) \<Rightarrow> RetrievalManager \<Rightarrow> string \<Rightarrow> int \<Rightarrow>
   py_error + result list"
where
  "RetrievalManager_search hash segment self query top_k =
     EnhancedHybridRetriever_search hash segment (rm_hybrid_retriever self) query top_k"

subsection \<open>Reachable states of the keyword index\<close>

text \<open>
  A \<^verbatim>\<open>KeywordRetriever\<close> is created by its constructor and changed by
  \<^verbatim>\<open>add_documents\<close> only. A caller may catch an exception of either and go on, as
  \<^verbatim>\<open>RetrievalManager\<close> does, so the state left by a failed call counts as reachable.
\<close>

inductive reachable :: "(string \<Rightarrow> string list) \<Rightarrow> KeywordRetriever \<Rightarrow> bool"
  for segment :: "string \<Rightarrow> string list"
where
  reachable_init: "reachable segment (fst (KeywordRetriever_init segment stops docs))"
| reachable_add:
    "reachable segment kr \<Longrightarrow> reachable segment (fst (add_documents segment kr docs))"

subsection \<open>BM25 as the specification words it\<close>

text \<open>
  The corpus of a retriever: the term sequence of every document, in insertion order.
  \<open>N\<close> is its length.
\<close>

definition corpus_of :: "(string \<Rightarrow> string list) \<Rightarrow> KeywordRetriever \<Rightarrow> string list list" where
  "corpus_of segment self =
     map (\<lambda>doc. preprocess_text segment self (doc_content doc)) (documents self)"

text \<open>\<open>df(t)\<close>: the number of documents that contain the term at least once.\<close>

definition spec_df :: "string list list \<Rightarrow> string \<Rightarrow> nat" where
  "spec_df corpus t = length (filter (\<lambda>d. t \<in> set d) corpus)"

text \<open>\<open>tf(t,d)\<close>: the number of occurrences of the term in the document.\<close>

definition spec_tf :: "string \<Rightarrow> string list \<Rightarrow> nat" where
  "spec_tf t d = count_list d t"

definition spec_avg_len :: "string list list \<Rightarrow> real" where
  "spec_avg_len corpus = real (sum_list (map length corpus)) / real (length corpus)"

definition spec_idf :: "string list list \<Rightarrow> string \<Rightarrow> real" where
  "spec_idf corpus t =
     ln ((real (length corpus) - real (spec_df corpus t) + 0.5) / (real (spec_df corpus t) + 0.5))"

definition spec_tf_term :: "real \<Rightarrow> real \<Rightarrow> string list list \<Rightarrow> string \<Rightarrow> string list \<Rightarrow> real" where
  "spec_tf_term k1 b corpus t d =
     real (spec_tf t d) * (k1 + 1) /
       (real (spec_tf t d) + k1 * (1 - b + b * real (length d) / spec_avg_len corpus))"

text \<open>The sum runs over the query terms, in order and with repetition, that occur in \<open>d\<close>.\<close>

definition spec_bm25 ::
  "real \<Rightarrow> real \<Rightarrow> string list list \<Rightarrow> string list \<Rightarrow> string list \<Rightarrow> real"
where
  "spec_bm25 k1 b corpus query_terms d =
     (\<Sum>t \<leftarrow> filter (\<lambda>t. t \<in> set d) query_terms. spec_idf corpus t * spec_tf_term k1 b corpus t d)"

subsection \<open>Deduplication as the specification words it\<close>

text \<open>
  Keeping the first occurrence under a key: the element at position \<open>i\<close> stays iff no
  earlier element has the same key; the survivors keep their order.
\<close>

definition keep_first_by :: "('a \<Rightarrow> 'b) \<Rightarrow> 'a list \<Rightarrow> 'a list" where
  "keep_first_by f xs =
     map (\<lambda>i. xs ! i) (filter (\<lambda>i. f (xs ! i) \<notin> f ` set (take i xs)) [0..<length xs])"

text \<open>The canonical record of a raw record, if it has one.\<close>

definition result_of_item :: "raw_item \<Rightarrow> result option" where
  "result_of_item item =
     (case extract_item item of
        None \<Rightarrow> None
      | Some (c, source, sc, meta) \<Rightarrow>
          Some \<lparr>file_name = source, content = c, metadata = meta, score = sc,
                weighted_rrf_score = None, rerank_score = None, rerank_position = None\<rparr>)"

subsection \<open>Sample data\<close>

text \<open>A stand-in for the built-in \<^verbatim>\<open>hash\<close> in examples: a polynomial hash.\<close>

definition sample_hash :: "string \<Rightarrow> int" where
  "sample_hash s = foldl (\<lambda>h c. 31 * h + int (of_char c)) 7 s"

definition mk_result :: "string \<Rightarrow> string \<Rightarrow> result" where
  "mk_result source c =
     \<lparr>file_name = source, content = c, metadata = [], score = None,
      weighted_rrf_score = None, rerank_score = None, rerank_position = None\<rparr>"

definition mk_doc :: "string \<Rightarrow> document" where
  "mk_doc c = \<lparr>doc_content = c, doc_source = None\<rparr>"

subsection \<open>Invariant of the fusion loops\<close>


subsection \<open>Invariant of the keyword index\<close>

text \<open>
  The index fields agree with the documents: the term lists and lengths are those of the
  corpus, the document frequencies count the documents that hold a term, the average
  length is 0 for the empty corpus and the mean term count otherwise, and the BM25
  parameters are the ones set by the constructor.
\<close>

definition index_ok :: "(string \<Rightarrow> string list) \<Rightarrow> KeywordRetriever \<Rightarrow> bool" where
  "index_ok segment kr \<longleftrightarrow>
     document_terms kr = corpus_of segment kr \<and>
     doc_lengths kr = map length (corpus_of segment kr) \<and>
     (\<forall>t. dd_get (term_doc_freq kr) t = spec_df (corpus_of segment kr) t) \<and>
     avg_doc_length kr =
       (if documents kr = [] then 0 else spec_avg_len (corpus_of segment kr)) \<and>
     bm25_k1 kr = 1.5 \<and> bm25_b kr = 0.75"

text \<open>
  A small corpus, segmented at white space: the word \<open>value\<close> stands in two of the
  three documents. The second corpus has one document whose only word is too short to
  be a term.
\<close>

definition sample_docs :: "document list" where
  "sample_docs =
     [mk_doc ''value value labor'', mk_doc ''price market'', mk_doc ''labor value'']"

definition sample_kr :: KeywordRetriever where
  "sample_kr = fst (KeywordRetriever_init py_split {} (Some sample_docs))"

definition blank_kr :: KeywordRetriever where
  "blank_kr = fst (KeywordRetriever_init py_split {} (Some [mk_doc ''a'']))"

subsection \<open>Sample collaborators\<close>

text \<open>
  A dense search that answers every query with the same two records, whatever
  \<open>top_k\<close> is; one that answers with a single record of blank text; and a rerank
  client that answers with the first \<open>k\<close> entries of a one-entry list.
\<close>

definition two_hits :: VecRetriever where
  "two_hits =
     \<lparr>vr_query = (\<lambda>question top_k threshold.
        Inr [PayloadItem \<lparr>p_text = Some ''d1'', p_source_file = Some ''A'', p_extra = []\<rparr> None,
             PayloadItem \<lparr>p_text = Some ''d2'', p_source_file = Some ''A'', p_extra = []\<rparr> None])\<rparr>"

definition blank_hit :: VecRetriever where
  "blank_hit =
     \<lparr>vr_query = (\<lambda>question top_k threshold.
        Inr [PayloadItem \<lparr>p_text = Some '' '', p_source_file = Some ''A'', p_extra = []\<rparr> None])\<rparr>"

definition one_entry_client :: pinecone_client where
  "one_entry_client = (\<lambda>model_name query docs k. Inr (take (nat k) [RespItem (Some 0) (Some 1)]))"

definition one_entry_reranker :: PineconeCohereReranker where
  "one_entry_reranker = \<lparr>client = one_entry_client, model = ''cohere-rerank-3.5''\<rparr>"

text \<open>
  A rerank client honours \<^verbatim>\<open>top_n\<close> when its answer never has more entries than it
  was asked for.
\<close>

definition honours_top_n :: "pinecone_client \<Rightarrow> bool" where
  "honours_top_n c \<longleftrightarrow>
     (\<forall>model_name query docs k data.
        c model_name query docs k = Inr data \<longrightarrow> int (length data) \<le> max k 0)"

text \<open>The records of a raw answer that have a canonical form with non-empty content.\<close>

definition candidates :: "raw_item list \<Rightarrow> result list" where
  "candidates raw = filter (\<lambda>r. content r \<noteq> '''') (List.map_filter result_of_item raw)"

text \<open>
  A dense search whose answer repeats the content \<open>d1\<close>, and a constructor of the
  Pinecone client that always raises.
\<close>

definition dup_hits :: VecRetriever where
  "dup_hits =
     \<lparr>vr_query = (\<lambda>question top_k threshold.
        Inr [PayloadItem \<lparr>p_text = Some ''d1'', p_source_file = Some ''A'', p_extra = []\<rparr> None,
             PayloadItem \<lparr>p_text = Some ''d1'', p_source_file = Some ''B'', p_extra = []\<rparr> None,
             PayloadItem \<lparr>p_text = Some ''d2'', p_source_file = Some ''C'', p_extra = []\<rparr> None])\<rparr>"

definition failing_pinecone :: "(string \<Rightarrow> py_error + pinecone_client) option" where
  "failing_pinecone = Some (\<lambda>api_key. Inl UpstreamError)"

section \<open>Proofs\<close>









lemma set_py_slice_to: "set (py_slice_to n xs) \<subseteq> set xs"
  by (auto simp: py_slice_to_def dest: in_set_takeD)

lemma set_sorted_reverse: "set (sorted_reverse f xs) = set xs"
  by (simp add: sorted_reverse_def)






lemma dd_get_fold_incr: "dd_get (fold dd_incr ts m) t = dd_get m t + count_list ts t"
  by (induction ts arbitrary: m) (auto simp: dd_incr_def dd_get_def)

lemma dd_get_empty: "dd_get Map.empty t = 0"
  by (simp add: dd_get_def)

lemma fold_dd_incr_key:
  "fold dd_incr ts m t = (if t \<in> set ts then Some (dd_get m t + count_list ts t) else m t)"
  by (induction ts arbitrary: m) (auto simp: dd_incr_def dd_get_def)

lemma count_list_remdups: "count_list (remdups ts) t = (if t \<in> set ts then 1 else 0)"
  by (induction ts) auto

lemma preprocess_text_fields [simp]:
  "preprocess_text segment (self\<lparr>document_terms := a\<rparr>) = preprocess_text segment self"
  "preprocess_text segment (self\<lparr>doc_lengths := b\<rparr>) = preprocess_text segment self"
  "preprocess_text segment (self\<lparr>term_doc_freq := c\<rparr>) = preprocess_text segment self"
  "preprocess_text segment (self\<lparr>avg_doc_length := d\<rparr>) = preprocess_text segment self"
  "preprocess_text segment (self\<lparr>documents := e\<rparr>) = preprocess_text segment self"
  by (simp_all add: preprocess_text_def fun_eq_iff)

lemma index_documents_fields:
  "documents (index_documents segment docs self) = documents self \<and>
   stop_words (index_documents segment docs self) = stop_words self \<and>
   bm25_k1 (index_documents segment docs self) = bm25_k1 self \<and>
   bm25_b (index_documents segment docs self) = bm25_b self \<and>
   avg_doc_length (index_documents segment docs self) = avg_doc_length self"
  by (induction docs arbitrary: self) (simp_all add: Let_def)

lemma index_documents_terms:
  "document_terms (index_documents segment docs self) =
     document_terms self @ map (\<lambda>doc. preprocess_text segment self (doc_content doc)) docs \<and>
   doc_lengths (index_documents segment docs self) =
     doc_lengths self @
       map length (map (\<lambda>doc. preprocess_text segment self (doc_content doc)) docs)"
  by (induction docs arbitrary: self) (simp_all add: Let_def)

lemma index_documents_df:
  "dd_get (term_doc_freq (index_documents segment docs self)) t =
     dd_get (term_doc_freq self) t +
     spec_df (map (\<lambda>doc. preprocess_text segment self (doc_content doc)) docs) t"
  by (induction docs arbitrary: self)
     (simp_all add: Let_def spec_df_def dd_get_fold_incr count_list_remdups)

lemma corpus_of_fields [simp]:
  "corpus_of segment (self\<lparr>document_terms := a\<rparr>) = corpus_of segment self"
  "corpus_of segment (self\<lparr>doc_lengths := b\<rparr>) = corpus_of segment self"
  "corpus_of segment (self\<lparr>term_doc_freq := c\<rparr>) = corpus_of segment self"
  "corpus_of segment (self\<lparr>avg_doc_length := d\<rparr>) = corpus_of segment self"
  by (simp_all add: corpus_of_def)

lemma corpus_of_index_documents:
  "corpus_of segment (index_documents segment docs self) = corpus_of segment self"
proof -
  have "preprocess_text segment (index_documents segment docs self) =
        preprocess_text segment self"
    by (simp add: preprocess_text_def fun_eq_iff index_documents_fields)
  then show ?thesis by (simp add: corpus_of_def index_documents_fields)
qed

lemma build_index_ok:
  assumes "bm25_k1 self = 1.5" "bm25_b self = 0.75"
  shows "snd (build_index segment self) = None \<and>
         index_ok segment (fst (build_index segment self)) \<and>
         documents (fst (build_index segment self)) = documents self \<and>
         stop_words (fst (build_index segment self)) = stop_words self"
proof -
  let ?s0 = "self\<lparr>document_terms := [], doc_lengths := [], term_doc_freq := Map.empty\<rparr>"
  let ?s1 = "index_documents segment (documents self) ?s0"
  have c: "corpus_of segment ?s1 = corpus_of segment self"
    by (simp add: corpus_of_index_documents)
  have dt: "document_terms ?s1 = corpus_of segment self"
    by (simp add: index_documents_terms corpus_of_def)
  have dl: "doc_lengths ?s1 = map length (corpus_of segment self)"
    by (simp add: index_documents_terms corpus_of_def)
  have df: "dd_get (term_doc_freq ?s1) t = spec_df (corpus_of segment self) t" for t
    by (simp add: index_documents_df corpus_of_def dd_get_empty)
  have f: "documents ?s1 = documents self" "stop_words ?s1 = stop_words self"
    "bm25_k1 ?s1 = 1.5" "bm25_b ?s1 = 0.75"
    using assms by (simp_all add: index_documents_fields)
  have e: "doc_lengths ?s1 = [] \<longleftrightarrow> documents self = []"
    by (simp add: dl corpus_of_def)
  show ?thesis
  proof (cases "documents self = []")
    case True
    with e have b: "build_index segment self = (?s1\<lparr>avg_doc_length := 0\<rparr>, None)"
      by (simp add: build_index_def Let_def)
    show ?thesis
      using True c dt dl df f by (simp add: b index_ok_def)
  next
    case False
    with e have ne: "doc_lengths ?s1 \<noteq> []" by simp
    then have len: "real (length (doc_lengths ?s1)) \<noteq> 0" by simp
    have b: "build_index segment self =
        (?s1\<lparr>avg_doc_length := real (sum_list (doc_lengths ?s1)) / real (length (doc_lengths ?s1))\<rparr>,
         None)"
      using ne len by (simp add: build_index_def Let_def py_div_def)
    show ?thesis
      using False c dt dl df f by (simp add: b index_ok_def spec_avg_len_def)
  qed
qed

lemma init_fields:
  "bm25_k1 (fst (KeywordRetriever_init segment stops docs)) = 1.5 \<and>
   bm25_b (fst (KeywordRetriever_init segment stops docs)) = 0.75 \<and>
   snd (KeywordRetriever_init segment stops docs) = None \<and>
   index_ok segment (fst (KeywordRetriever_init segment stops docs))"
proof -
  let ?self = "\<lparr>documents = (case docs of None \<Rightarrow> [] | Some ds \<Rightarrow> ds),
                  document_terms = [], term_doc_freq = Map.empty, avg_doc_length = 0,
                  doc_lengths = [], bm25_k1 = 1.5, bm25_b = 0.75, stop_words = stops\<rparr>"
  show ?thesis
  proof (cases "documents ?self = []")
    case True
    then have "KeywordRetriever_init segment stops docs = (?self, None)"
      by (simp add: KeywordRetriever_init_def)
    with True show ?thesis
      by (simp add: index_ok_def corpus_of_def spec_df_def dd_get_def)
  next
    case False
    then have i: "KeywordRetriever_init segment stops docs = build_index segment ?self"
      by (simp add: KeywordRetriever_init_def)
    have "bm25_k1 ?self = 1.5" "bm25_b ?self = 0.75" by simp_all
    from build_index_ok[OF this, of segment] show ?thesis
      by (simp add: i index_ok_def)
  qed
qed

lemma add_documents_ok:
  assumes "index_ok segment kr"
  shows "snd (add_documents segment kr docs) = None \<and>
         index_ok segment (fst (add_documents segment kr docs))"
proof -
  from assms have "bm25_k1 (kr\<lparr>documents := documents kr @ docs\<rparr>) = 1.5"
    "bm25_b (kr\<lparr>documents := documents kr @ docs\<rparr>) = 0.75"
    by (simp_all add: index_ok_def)
  from build_index_ok[OF this, of segment] show ?thesis
    by (simp add: add_documents_def)
qed

lemma reachable_index_ok: "reachable segment kr \<Longrightarrow> index_ok segment kr"
  by (induction rule: reachable.induct) (simp_all add: init_fields add_documents_ok)


lemma spec_df_le: "spec_df corpus t \<le> length corpus"
  by (simp add: spec_df_def)

lemma spec_df_pos: "d \<in> set corpus \<Longrightarrow> t \<in> set d \<Longrightarrow> 1 \<le> spec_df corpus t"
proof -
  assume "d \<in> set corpus" "t \<in> set d"
  then have "d \<in> set (filter (\<lambda>d. t \<in> set d) corpus)" by simp
  then have "0 < length (filter (\<lambda>d. t \<in> set d) corpus)"
    by (simp only: length_pos_if_in_set)
  then show ?thesis unfolding spec_df_def by linarith
qed

lemma spec_avg_len_pos:
  assumes "d \<in> set corpus" "d \<noteq> []"
  shows "0 < spec_avg_len corpus"
proof -
  from assms have "length d \<le> sum_list (map length corpus)"
    by (simp add: member_le_sum_list)
  moreover from assms have "0 < length d" by simp
  ultimately have "0 < sum_list (map length corpus)" by linarith
  moreover from assms have "0 < length corpus" by (cases corpus) auto
  ultimately show ?thesis by (simp add: spec_avg_len_def)
qed

lemma count_list_pos: "t \<in> set d \<Longrightarrow> 1 \<le> count_list d t"
  by (induction d) auto

lemma score_terms_ok:
  assumes ok: "index_ok segment kr" and i: "i < length (documents kr)"
  shows "score_terms kr (fold dd_incr (corpus_of segment kr ! i) Map.empty)
           (length (corpus_of segment kr ! i)) q acc =
         Inr (acc + spec_bm25 1.5 0.75 (corpus_of segment kr) q (corpus_of segment kr ! i))"
proof (induction q arbitrary: acc)
  case Nil
  show ?case by (simp add: spec_bm25_def)
next
  case (Cons t q)
  let ?corpus = "corpus_of segment kr"
  let ?d = "?corpus ! i"
  let ?tfm = "fold dd_incr ?d Map.empty"
  have N: "length ?corpus = length (documents kr)" by (simp add: corpus_of_def)
  have dmem: "?d \<in> set ?corpus" using i N by simp
  show ?case
  proof (cases "t \<in> set ?d")
    case False
    then have "?tfm t = None" by (simp add: fold_dd_incr_key)
    with False Cons.IH[of acc] show ?thesis by (simp add: spec_bm25_def)
  next
    case True
    let ?tf = "count_list ?d t"
    let ?df = "spec_df ?corpus t"
    have tfm: "?tfm t = Some ?tf" using True by (simp add: fold_dd_incr_key dd_get_empty)
    have tf1: "1 \<le> ?tf" using True by (rule count_list_pos)
    have df1: "1 \<le> ?df" using dmem True by (rule spec_df_pos)
    have dfN: "?df \<le> length (documents kr)" using spec_df_le[of ?corpus t] N by simp
    have dfeq: "dd_get (term_doc_freq kr) t = ?df" using ok by (simp add: index_ok_def)
    have ne: "documents kr \<noteq> []" using i by auto
    have avg: "avg_doc_length kr = spec_avg_len ?corpus" using ok ne by (simp add: index_ok_def)
    have dne: "?d \<noteq> []" using True by auto
    have avgpos: "0 < spec_avg_len ?corpus" using dmem dne by (rule spec_avg_len_pos)
    have k1: "bm25_k1 kr = 1.5" and b: "bm25_b kr = 0.75" using ok by (simp_all add: index_ok_def)
    let ?x = "(real (length ?corpus) - real ?df + 0.5) / (real ?df + 0.5)"
    have num: "real_of_int (int (length (documents kr)) - int ?df) + 0.5 =
               real (length ?corpus) - real ?df + 0.5" using N by simp
    have d1: "py_div (real_of_int (int (length (documents kr)) - int ?df) + 0.5) (real ?df + 0.5)
              = Inr ?x"
    proof -
      have "0 \<le> real ?df" by simp
      then have "real ?df + 0.5 \<noteq> 0" by linarith
      then show ?thesis by (simp add: py_div_def N)
    qed
    have xpos: "0 < ?x"
    proof -
      have "real ?df \<le> real (length ?corpus)" using dfN N by simp
      then have "0 < real (length ?corpus) - real ?df + 0.5" by simp
      moreover have "0 \<le> real ?df" by simp
      then have "0 < real ?df + 0.5" by linarith
      ultimately show ?thesis by (rule divide_pos_pos)
    qed
    have lg: "py_log ?x = Inr (spec_idf ?corpus t)"
      using xpos by (simp add: py_log_def spec_idf_def)
    let ?ratio = "real (length ?d) / spec_avg_len ?corpus"
    have d2: "py_div (real (length ?d)) (avg_doc_length kr) = Inr ?ratio"
      using avgpos avg by (simp add: py_div_def)
    have rpos: "0 \<le> ?ratio" using avgpos by simp
    let ?den = "real ?tf + 1.5 * (1 - 0.75 + 0.75 * ?ratio)"
    have denpos: "0 < ?den"
    proof -
      have "0 \<le> 0.75 * ?ratio" using rpos by simp
      then have "0 \<le> 1.5 * (1 - 0.75 + 0.75 * ?ratio)" by simp
      moreover have "0 < real ?tf" using tf1 by simp
      ultimately show ?thesis by linarith
    qed
    have d3: "py_div (real ?tf * (bm25_k1 kr + 1))
                (real ?tf + bm25_k1 kr * (1 - bm25_b kr + bm25_b kr * ?ratio))
              = Inr (spec_tf_term 1.5 0.75 ?corpus t ?d)"
      using denpos by (simp add: py_div_def k1 b spec_tf_term_def spec_tf_def)
    have step: "score_terms kr ?tfm (length ?d) (t # q) acc =
                score_terms kr ?tfm (length ?d) q
                  (acc + spec_idf ?corpus t * spec_tf_term 1.5 0.75 ?corpus t ?d)"
      by (simp only: score_terms.simps tfm option.case Let_def dfeq d1 lg d2 d3 sum.case)
    have unfold_spec: "spec_bm25 1.5 0.75 ?corpus (t # q) ?d =
        spec_idf ?corpus t * spec_tf_term 1.5 0.75 ?corpus t ?d +
        spec_bm25 1.5 0.75 ?corpus q ?d"
      using True by (simp add: spec_bm25_def)
    have "score_terms kr ?tfm (length ?d) (t # q) acc =
          Inr (acc + spec_idf ?corpus t * spec_tf_term 1.5 0.75 ?corpus t ?d +
               spec_bm25 1.5 0.75 ?corpus q ?d)"
      by (simp only: step Cons.IH)
    then show ?thesis by (simp only: unfold_spec add.assoc)
  qed
qed

lemma calculate_bm25_score_ok:
  assumes ok: "index_ok segment kr" and i: "i < length (documents kr)"
  shows "calculate_bm25_score kr q i =
         Inr (spec_bm25 1.5 0.75 (corpus_of segment kr) q (corpus_of segment kr ! i))"
proof -
  have N: "length (corpus_of segment kr) = length (documents kr)" by (simp add: corpus_of_def)
  have dt: "document_terms kr = corpus_of segment kr"
    and dl: "doc_lengths kr = map length (corpus_of segment kr)"
    using ok by (simp_all add: index_ok_def)
  have a: "py_index (document_terms kr) i = Inr (corpus_of segment kr ! i)"
    using i N by (simp add: py_index_def dt)
  have b: "py_index (doc_lengths kr) i = Inr (length (corpus_of segment kr ! i))"
    using i N by (simp add: py_index_def dl)
  show ?thesis
    using score_terms_ok[OF ok i, of q 0] by (simp add: calculate_bm25_score_def a b)
qed

lemma calculate_bm25_score_out_of_range:
  assumes ok: "index_ok segment kr" and i: "\<not> i < length (documents kr)"
  shows "calculate_bm25_score kr q i = Inl IndexError"
proof -
  have "length (document_terms kr) = length (documents kr)"
    using ok by (simp add: index_ok_def corpus_of_def)
  with i show ?thesis by (simp add: calculate_bm25_score_def py_index_def)
qed


lemma score_documents_ok:
  assumes ok: "index_ok segment kr" and js: "\<forall>j \<in> set js. j < length (documents kr)"
  shows "score_documents kr q js acc =
         Inr (acc @ filter (\<lambda>x. 0 < snd x)
                (map (\<lambda>j. (j, spec_bm25 1.5 0.75 (corpus_of segment kr) q
                                  (corpus_of segment kr ! j))) js))"
  using js
proof (induction js arbitrary: acc)
  case Nil
  show ?case by simp
next
  case (Cons j js)
  then have j: "j < length (documents kr)" by simp
  from Cons have rest: "\<forall>j \<in> set js. j < length (documents kr)" by simp
  show ?case
    by (simp add: calculate_bm25_score_ok[OF ok j] Cons.IH[OF rest])
qed

lemma format_keyword_ok:
  assumes "\<forall>x \<in> set xs. fst x < length (documents kr)"
  shows "format_keyword kr xs =
         Inr (map (\<lambda>x. keyword_result (documents kr ! fst x) (snd x)) xs)"
  using assms
proof (induction xs)
  case Nil
  show ?case by simp
next
  case (Cons x xs)
  obtain j s where x: "x = (j, s)" by (cases x)
  with Cons show ?case by (simp add: py_index_def)
qed






lemma keyword_search_ok:
  assumes ok: "index_ok segment kr"
  shows "KeywordRetriever_search segment kr query top_k =
         Inr (map (\<lambda>x. keyword_result (documents kr ! fst x) (snd x))
                (py_slice_to top_k
                  (sorted_reverse snd
                    (filter (\<lambda>x. 0 < snd x)
                      (map (\<lambda>j. (j, spec_bm25 1.5 0.75 (corpus_of segment kr)
                                          (preprocess_text segment kr query)
                                          (corpus_of segment kr ! j)))
                        [0..<length (documents kr)])))))"
proof -
  let ?q = "preprocess_text segment kr query"
  let ?ds = "filter (\<lambda>x. 0 < snd x)
               (map (\<lambda>j. (j, spec_bm25 1.5 0.75 (corpus_of segment kr) ?q
                                 (corpus_of segment kr ! j)))
                  [0..<length (documents kr)])"
  have sd: "score_documents kr ?q [0..<length (documents kr)] [] = Inr ?ds"
    using score_documents_ok[OF ok, of "[0..<length (documents kr)]" ?q "[]"] by simp
  have inrange: "\<forall>x \<in> set (py_slice_to top_k (sorted_reverse snd ?ds)).
                   fst x < length (documents kr)"
  proof
    fix x assume "x \<in> set (py_slice_to top_k (sorted_reverse snd ?ds))"
    then have "x \<in> set ?ds"
      using set_py_slice_to[of top_k "sorted_reverse snd ?ds"]
      by (auto simp: set_sorted_reverse)
    then show "fst x < length (documents kr)" by auto
  qed
  show ?thesis
  proof (cases "documents kr = []")
    case True
    then show ?thesis
      by (simp add: KeywordRetriever_search_def sorted_reverse_def py_slice_to_def)
  next
    case ne: False
    show ?thesis
    proof (cases "?q = []")
      case True
      then have "?ds = []" by (simp add: spec_bm25_def)
      with True ne show ?thesis
        by (simp add: KeywordRetriever_search_def sorted_reverse_def py_slice_to_def)
    next
      case False
      with ne have "KeywordRetriever_search segment kr query top_k =
          format_keyword kr (py_slice_to top_k (sorted_reverse snd ?ds))"
        by (simp add: KeywordRetriever_search_def Let_def sd)
      with format_keyword_ok[OF inrange] show ?thesis by simp
    qed
  qed
qed

lemma init_documents:
  "documents (fst (KeywordRetriever_init segment stops docs)) =
     (case docs of None \<Rightarrow> [] | Some ds \<Rightarrow> ds) \<and>
   stop_words (fst (KeywordRetriever_init segment stops docs)) = stops"
proof -
  let ?self = "\<lparr>documents = (case docs of None \<Rightarrow> [] | Some ds \<Rightarrow> ds),
                  document_terms = [], term_doc_freq = Map.empty, avg_doc_length = 0,
                  doc_lengths = [], bm25_k1 = 1.5, bm25_b = 0.75, stop_words = stops\<rparr>"
  have "bm25_k1 ?self = 1.5" "bm25_b ?self = 0.75" by simp_all
  from build_index_ok[OF this, of segment] show ?thesis
    by (simp add: KeywordRetriever_init_def Let_def)
qed

lemma keep_first_by_snoc:
  "keep_first_by f (xs @ [x]) = keep_first_by f xs @ (if f x \<in> f ` set xs then [] else [x])"
proof -
  have a: "filter (\<lambda>i. f ((xs @ [x]) ! i) \<notin> f ` set (take i (xs @ [x]))) [0..<length xs] =
           filter (\<lambda>i. f (xs ! i) \<notin> f ` set (take i xs)) [0..<length xs]"
    by (rule filter_cong) (auto simp: nth_append)
  have b: "map (\<lambda>i. (xs @ [x]) ! i) (filter (\<lambda>i. f (xs ! i) \<notin> f ` set (take i xs)) [0..<length xs]) =
           map (\<lambda>i. xs ! i) (filter (\<lambda>i. f (xs ! i) \<notin> f ` set (take i xs)) [0..<length xs])"
    by (rule map_cong) (auto simp: nth_append)
  let ?P = "\<lambda>i. f ((xs @ [x]) ! i) \<notin> f ` set (take i (xs @ [x]))"
  have u: "[0..<length (xs @ [x])] = [0..<length xs] @ [length xs]" by simp
  have e: "map (\<lambda>i. (xs @ [x]) ! i) (filter ?P [length xs]) =
           (if f x \<in> f ` set xs then [] else [x])" by simp
  have "keep_first_by f (xs @ [x]) =
        map (\<lambda>i. (xs @ [x]) ! i) (filter ?P [0..<length xs]) @
        map (\<lambda>i. (xs @ [x]) ! i) (filter ?P [length xs])"
    by (simp only: keep_first_by_def u filter_append map_append)
  also have "map (\<lambda>i. (xs @ [x]) ! i) (filter ?P [0..<length xs]) = keep_first_by f xs"
    by (simp only: a b keep_first_by_def)
  finally show ?thesis by (simp only: e)
qed

lemma keep_first_by_inj:
  assumes "inj_on h (g ` set xs)"
  shows "keep_first_by (\<lambda>x. h (g x)) xs = keep_first_by g xs"
proof -
  have "(h (g (xs ! i)) \<notin> (\<lambda>x. h (g x)) ` set (take i xs)) =
        (g (xs ! i) \<notin> g ` set (take i xs))" if "i \<in> set [0..<length xs]" for i
  proof -
    from that have m: "xs ! i \<in> set xs" by simp
    have s: "set (take i xs) \<subseteq> set xs" by (rule set_take_subset)
    show ?thesis
    proof
      assume l: "h (g (xs ! i)) \<notin> (\<lambda>x. h (g x)) ` set (take i xs)"
      show "g (xs ! i) \<notin> g ` set (take i xs)"
      proof
        assume "g (xs ! i) \<in> g ` set (take i xs)"
        then obtain y where "y \<in> set (take i xs)" "g (xs ! i) = g y" by auto
        then have "h (g (xs ! i)) \<in> (\<lambda>x. h (g x)) ` set (take i xs)" by auto
        with l show False by simp
      qed
    next
      assume r: "g (xs ! i) \<notin> g ` set (take i xs)"
      show "h (g (xs ! i)) \<notin> (\<lambda>x. h (g x)) ` set (take i xs)"
      proof
        assume "h (g (xs ! i)) \<in> (\<lambda>x. h (g x)) ` set (take i xs)"
        then obtain y where y: "y \<in> set (take i xs)" "h (g (xs ! i)) = h (g y)" by auto
        with s have "y \<in> set xs" by auto
        with assms m y(2) have "g (xs ! i) = g y" by (simp add: inj_on_def)
        with y(1) r show False by auto
      qed
    qed
  qed
  then have "filter (\<lambda>i. h (g (xs ! i)) \<notin> (\<lambda>x. h (g x)) ` set (take i xs)) [0..<length xs] =
        filter (\<lambda>i. g (xs ! i) \<notin> g ` set (take i xs)) [0..<length xs]"
    by (intro filter_cong) auto
  then show ?thesis by (simp add: keep_first_by_def)
qed

lemma set_keep_first_by: "set (keep_first_by f xs) \<subseteq> set xs"
  by (auto simp: keep_first_by_def)

lemma length_keep_first_by: "length (keep_first_by f xs) \<le> length xs"
proof -
  have "length (keep_first_by f xs) \<le> length [0..<length xs]"
    unfolding keep_first_by_def length_map by (rule length_filter_le)
  then show ?thesis by simp
qed

lemma collect_results_append:
  "collect_results hash (xs @ ys) st = collect_results hash ys (collect_results hash xs st)"
proof (induction xs arbitrary: st)
  case Nil
  show ?case by simp
next
  case (Cons x xs)
  obtain results seen where st: "st = (results, seen)" by (cases st)
  show ?case by (simp add: st Cons.IH split: option.splits prod.splits)
qed

lemma candidates_snoc:
  "candidates (raw @ [item]) =
     candidates raw @
       (case result_of_item item of
          None \<Rightarrow> []
        | Some r \<Rightarrow> if content r \<noteq> '''' then [r] else [])"
  by (simp add: candidates_def List.map_filter_def split: option.splits)

lemma collect_results_spec:
  "collect_results hash raw ([], {}) =
     (keep_first_by (\<lambda>r. hash (content r)) (candidates raw),
      (\<lambda>r. hash (content r)) ` set (candidates raw))"
proof (induction raw rule: rev_induct)
  case Nil
  show ?case by (simp add: candidates_def keep_first_by_def List.map_filter_def)
next
  case (snoc item raw)
  show ?case
  proof (cases "extract_item item")
    case None
    then have "result_of_item item = None" by (simp add: result_of_item_def)
    with None snoc show ?thesis
      by (simp add: collect_results_append candidates_snoc)
  next
    case (Some t)
    obtain c source sc meta where t: "t = (c, source, sc, meta)" by (cases t)
    let ?r = "\<lparr>file_name = source, content = c, metadata = meta, score = sc,
                weighted_rrf_score = None, rerank_score = None, rerank_position = None\<rparr>"
    have roi: "result_of_item item = Some ?r" using Some t by (simp add: result_of_item_def)
    show ?thesis
    proof (cases "c \<noteq> '''' \<and> hash c \<notin> (\<lambda>r. hash (content r)) ` set (candidates raw)")
      case True
      with Some t snoc roi show ?thesis
        by (simp add: collect_results_append candidates_snoc keep_first_by_snoc)
    next
      case False
      with Some t snoc roi show ?thesis
        by (auto simp add: collect_results_append candidates_snoc keep_first_by_snoc)
    qed
  qed
qed

subsection \<open>Claims about the fusion reranker\<close>



text \<open>
  Claim C8. When the number of ranked lists differs from the number of weights,
  \<^verbatim>\<open>rerank_with_weights\<close> raises at once, whatever the lists, the weights, the constant
  \<open>k\<close> and the output size are: the exception is the \<^verbatim>\<open>ValueError\<close> of the length
  check, the configuration error of the specification, and no scoring step decides it.
\<close>

theorem rerank_mismatch_fails:
  "length result_lists \<noteq> length weights \<Longrightarrow>
     rerank_with_weights self result_lists weights top_k = Inl ValueError"
  by (simp add: rerank_with_weights_def)

theorem rerank_mismatch_fails_witness:
  "length [[mk_result ''A'' ''d1'']] \<noteq> length ([] :: real list) \<and>
   rerank_with_weights \<lparr>self_k = - 1\<rparr> [[mk_result ''A'' ''d1'']] [] 10 = Inl ValueError \<and>
   score_lists (- 1) [([mk_result ''A'' ''d1''], 1)] ([], Map.empty) = Inl ZeroDivisionError"
proof -
  have h: "length [[mk_result ''A'' ''d1'']] \<noteq> length ([] :: real list)" by simp
  from rerank_mismatch_fails[OF h, of "\<lparr>self_k = - 1\<rparr>" 10] h show ?thesis
    by (simp add: score_one_def py_div_def)
qed

text \<open>
  Claim C9, as amended. The configuration default of \<^verbatim>\<open>rrf_k\<close> is 20, and a
  \<^verbatim>\<open>RetrievalManager\<close> built from the default configuration fuses with \<open>k = 20\<close>.
  The classes themselves default to 60: \<^verbatim>\<open>RRFReranker()\<close> without \<open>k\<close> and
  \<^verbatim>\<open>EnhancedHybridRetriever\<close> without \<^verbatim>\<open>rrf_k\<close> fuse with \<open>k = 60\<close>.
\<close>

theorem rrf_k_defaults:
  "cfg_rrf_k RAGConfig_default = 20 \<and>
   (\<exists>m. RetrievalManager_init segment stops Pinecone env_key RAGConfig_default loaded
           (Inr vr) pinecone_api_key = Inr m \<and>
        self_k (reranker (rm_hybrid_retriever m)) = 20) \<and>
   self_k (RRFReranker_init None) = 60 \<and>
   self_k (reranker (EnhancedHybridRetriever_init vr kr None vw kw ext)) = 60"
  by (simp add: RAGConfig_default_def RetrievalManager_init_def Let_def
      EnhancedHybridRetriever_init_def RRFReranker_init_def get_or_def)

theorem rrf_k_defaults_witness:
  "\<exists>m. RetrievalManager_init py_split {} None '''' RAGConfig_default []
          (Inr \<lparr>vr_query = (\<lambda>q n t. Inr [])\<rparr>) None = Inr m \<and>
       self_k (reranker (rm_hybrid_retriever m)) = 20"
  using rrf_k_defaults[of py_split "{}" None "''''" "[]" "\<lparr>vr_query = (\<lambda>q n t. Inr [])\<rparr>" None]
  by blast

theorem rrf_k_class_default_counterexample:
  "self_k (RRFReranker_init None) \<noteq> 20"
  by (simp add: RRFReranker_init_def)

subsection \<open>Claims about the keyword index\<close>






lemma sum_list_neg:
  fixes f :: "'a \<Rightarrow> real"
  assumes "xs \<noteq> []" and "\<forall>x \<in> set xs. f x < 0"
  shows "sum_list (map f xs) < 0"
  using assms
proof (induction xs)
  case Nil
  then show ?case by simp
next
  case (Cons x xs)
  show ?case
  proof (cases "xs = []")
    case True
    with Cons.prems show ?thesis by simp
  next
    case False
    with Cons have "sum_list (map f xs) < 0" by simp
    moreover from Cons.prems have "f x < 0" by simp
    ultimately show ?thesis by simp
  qed
qed

lemma spec_idf_neg:
  assumes "length corpus < 2 * spec_df corpus t"
  shows "spec_idf corpus t < 0"
proof -
  let ?n = "real (length corpus)" and ?df = "real (spec_df corpus t)"
  have le: "?df \<le> ?n" using spec_df_le[of corpus t] by simp
  have lt: "?n < 2 * ?df" using assms by (metis of_nat_less_iff of_nat_mult of_nat_numeral)
  have num: "0 < ?n - ?df + 0.5" using le by simp
  have den: "0 < ?df + 0.5" by (simp add: add_nonneg_pos)
  have "?n - ?df + 0.5 < ?df + 0.5" using lt by simp
  with den have "(?n - ?df + 0.5) / (?df + 0.5) < 1" by simp
  moreover from num den have "0 < (?n - ?df + 0.5) / (?df + 0.5)" by (rule divide_pos_pos)
  ultimately show ?thesis unfolding spec_idf_def by (simp only: ln_less_zero)
qed

lemma spec_tf_term_pos:
  assumes "d \<in> set corpus" and "t \<in> set d"
  shows "0 < spec_tf_term 1.5 0.75 corpus t d"
proof -
  have tf: "0 < real (count_list d t)" using count_list_pos[OF assms(2)] by simp
  from assms have "d \<noteq> []" by auto
  with assms(1) have "0 < spec_avg_len corpus" by (rule spec_avg_len_pos)
  then have "0 \<le> 0.75 * real (length d) / spec_avg_len corpus" by simp
  then have "0 \<le> 1.5 * (1 - 0.75 + 0.75 * real (length d) / spec_avg_len corpus)" by simp
  with tf have den: "0 < real (count_list d t) +
      1.5 * (1 - 0.75 + 0.75 * real (length d) / spec_avg_len corpus)" by linarith
  from tf have num: "0 < real (count_list d t) * (1.5 + 1)" by simp
  from num den show ?thesis unfolding spec_tf_term_def spec_tf_def by (rule divide_pos_pos)
qed

lemma spec_bm25_neg:
  assumes d: "d \<in> set corpus"
    and some: "\<exists>t \<in> set q. t \<in> set d"
    and freq: "\<forall>t \<in> set q. t \<in> set d \<longrightarrow> length corpus < 2 * spec_df corpus t"
  shows "spec_bm25 1.5 0.75 corpus q d < 0"
proof -
  let ?ts = "filter (\<lambda>t. t \<in> set d) q"
  from some have ne: "?ts \<noteq> []" by (simp add: filter_empty_conv)
  have "spec_idf corpus t * spec_tf_term 1.5 0.75 corpus t d < 0" if "t \<in> set ?ts" for t
  proof -
    from that have t: "t \<in> set q" "t \<in> set d" by simp_all
    with freq have "spec_idf corpus t < 0" by (simp add: spec_idf_neg)
    moreover from d t(2) have "0 < spec_tf_term 1.5 0.75 corpus t d" by (rule spec_tf_term_pos)
    ultimately show ?thesis by (rule mult_neg_pos)
  qed
  then have "\<forall>t \<in> set ?ts. spec_idf corpus t * spec_tf_term 1.5 0.75 corpus t d < 0" by blast
  with ne show ?thesis unfolding spec_bm25_def by (rule sum_list_neg)
qed

text \<open>
  Claim C10. In a reachable state of the index with \<open>N\<close> documents, let \<open>d\<close> be a
  document that holds at least one of the query terms, and let every query term that
  \<open>d\<close> holds stand in more than half of the documents (\<open>N < 2 * df t\<close>). Then the BM25
  score of \<open>d\<close> is negative: the factor \<open>ln ((N - df + 0.5) / (df + 0.5))\<close> is not cut
  off at zero. The index of \<open>d\<close> is not among the scored documents that the search
  sorts, cuts and returns, although \<open>d\<close> holds query terms.
\<close>

theorem frequent_terms_score_negative:
  "reachable segment kr \<Longrightarrow> i < length (documents kr) \<Longrightarrow>
   \<exists>t \<in> set (preprocess_text segment kr query). t \<in> set (corpus_of segment kr ! i) \<Longrightarrow>
   \<forall>t \<in> set (preprocess_text segment kr query).
      t \<in> set (corpus_of segment kr ! i) \<longrightarrow>
      length (documents kr) < 2 * spec_df (corpus_of segment kr) t \<Longrightarrow>
   \<exists>s ds.
     calculate_bm25_score kr (preprocess_text segment kr query) i = Inr s \<and> s < 0 \<and>
     score_documents kr (preprocess_text segment kr query) [0..<length (documents kr)] [] =
       Inr ds \<and>
     i \<notin> fst ` set ds \<and>
     KeywordRetriever_search segment kr query top_k =
       Inr (map (\<lambda>x. keyword_result (documents kr ! fst x) (snd x))
              (py_slice_to top_k (sorted_reverse snd ds)))"
proof -
  assume r: "reachable segment kr" and i: "i < length (documents kr)"
    and some: "\<exists>t \<in> set (preprocess_text segment kr query). t \<in> set (corpus_of segment kr ! i)"
    and freq: "\<forall>t \<in> set (preprocess_text segment kr query).
      t \<in> set (corpus_of segment kr ! i) \<longrightarrow>
      length (documents kr) < 2 * spec_df (corpus_of segment kr) t"
  from r have ok: "index_ok segment kr" by (rule reachable_index_ok)
  let ?q = "preprocess_text segment kr query"
  let ?N = "length (documents kr)"
  let ?corpus = "corpus_of segment kr"
  let ?bm = "\<lambda>j. spec_bm25 1.5 0.75 ?corpus ?q (?corpus ! j)"
  let ?ds = "filter (\<lambda>x. 0 < snd x) (map (\<lambda>j. (j, ?bm j)) [0..<?N])"
  have N: "length ?corpus = ?N" by (simp add: corpus_of_def)
  with i have d: "?corpus ! i \<in> set ?corpus" by simp
  from freq N have freq': "\<forall>t \<in> set ?q. t \<in> set (?corpus ! i) \<longrightarrow>
      length ?corpus < 2 * spec_df ?corpus t" by simp
  from d some freq' have neg: "?bm i < 0" by (rule spec_bm25_neg)
  have calc: "calculate_bm25_score kr ?q i = Inr (?bm i)"
    using ok i by (rule calculate_bm25_score_ok)
  have sd: "score_documents kr ?q [0..<?N] [] = Inr ?ds"
    using score_documents_ok[OF ok, of "[0..<?N]" ?q "[]"] by simp
  have out: "i \<notin> fst ` set ?ds" using neg by auto
  have call: "KeywordRetriever_search segment kr query top_k =
         Inr (map (\<lambda>x. keyword_result (documents kr ! fst x) (snd x))
                (py_slice_to top_k (sorted_reverse snd ?ds)))"
    using ok by (rule keyword_search_ok)
  from calc neg sd out call show ?thesis by blast
qed

theorem frequent_terms_score_negative_witness:
  "reachable py_split sample_kr \<and> (0::nat) < length (documents sample_kr) \<and>
   preprocess_text py_split sample_kr ''value'' = [''value''] \<and>
   ''value'' \<in> set (corpus_of py_split sample_kr ! 0) \<and>
   length (documents sample_kr) < 2 * spec_df (corpus_of py_split sample_kr) ''value'' \<and>
   (\<exists>s ds.
      calculate_bm25_score sample_kr (preprocess_text py_split sample_kr ''value'') 0 = Inr s \<and>
      s < 0 \<and>
      score_documents sample_kr (preprocess_text py_split sample_kr ''value'')
        [0..<length (documents sample_kr)] [] = Inr ds \<and>
      0 \<notin> fst ` set ds)"
proof -
  have r: "reachable py_split sample_kr"
    unfolding sample_kr_def by (rule reachable_init)
  have docs: "documents sample_kr = sample_docs"
    by (simp add: sample_kr_def init_documents)
  have i: "(0::nat) < length (documents sample_kr)"
    by (simp add: docs sample_docs_def)
  have c: "corpus_of py_split sample_kr =
     [[''value'', ''value'', ''labor''], [''price'', ''market''], [''labor'', ''value'']]"
    by (simp add: corpus_of_def sample_kr_def init_documents sample_docs_def mk_doc_def
        preprocess_text_def py_split_def py_strip_def py_isspace_def)
  have q: "preprocess_text py_split sample_kr ''value'' = [''value'']"
    by (simp add: sample_kr_def init_documents preprocess_text_def py_split_def py_strip_def
        py_isspace_def)
  have m: "''value'' \<in> set (corpus_of py_split sample_kr ! 0)"
    by (simp add: c)
  have df: "spec_df (corpus_of py_split sample_kr) ''value'' = 2"
    by (simp add: c spec_df_def)
  have f: "length (documents sample_kr) < 2 * spec_df (corpus_of py_split sample_kr) ''value''"
    by (simp add: df docs sample_docs_def)
  have h1: "\<exists>t \<in> set (preprocess_text py_split sample_kr ''value'').
      t \<in> set (corpus_of py_split sample_kr ! 0)"
    using m by (simp add: q)
  have h2: "\<forall>t \<in> set (preprocess_text py_split sample_kr ''value'').
      t \<in> set (corpus_of py_split sample_kr ! 0) \<longrightarrow>
      length (documents sample_kr) < 2 * spec_df (corpus_of py_split sample_kr) t"
    using f by (simp add: q)
  from frequent_terms_score_negative[OF r i h1 h2, of 5] r i q m f show ?thesis by blast
qed

lemma zero_avg_all_empty:
  assumes ok: "index_ok segment kr" and ne: "documents kr \<noteq> []"
    and z: "avg_doc_length kr = 0"
  shows "\<forall>d \<in> set (corpus_of segment kr). d = []"
proof -
  let ?corpus = "corpus_of segment kr"
  have len: "0 < length ?corpus" using ne by (simp add: corpus_of_def)
  from ok ne z have "spec_avg_len ?corpus = 0" by (simp add: index_ok_def)
  with len have "sum_list (map length ?corpus) = 0" by (simp add: spec_avg_len_def)
  then have "\<forall>n \<in> set (map length ?corpus). n = 0" by (simp only: sum_list_eq_0_iff)
  then show ?thesis by simp
qed

lemma zero_avg_search_empty:
  assumes ok: "index_ok segment kr" and z: "avg_doc_length kr = 0"
  shows "KeywordRetriever_search segment kr query top_k = Inr []"
proof (cases "documents kr = []")
  case True
  then show ?thesis by (simp add: KeywordRetriever_search_def)
next
  case False
  let ?corpus = "corpus_of segment kr"
  let ?q = "preprocess_text segment kr query"
  from zero_avg_all_empty[OF ok False z] have e: "\<forall>d \<in> set ?corpus. d = []" .
  have "spec_bm25 1.5 0.75 ?corpus ?q (?corpus ! j) = 0" if "j < length (documents kr)" for j
  proof -
    from that have "?corpus ! j \<in> set ?corpus" by (simp add: corpus_of_def)
    with e have "?corpus ! j = []" by blast
    then show ?thesis by (simp add: spec_bm25_def)
  qed
  then have "filter (\<lambda>x. 0 < snd x)
               (map (\<lambda>j. (j, spec_bm25 1.5 0.75 ?corpus ?q (?corpus ! j)))
                  [0..<length (documents kr)]) = []"
    by (simp add: filter_empty_conv)
  with keyword_search_ok[OF ok, of query top_k] show ?thesis
    by (simp add: sorted_reverse_def py_slice_to_def)
qed

text \<open>
  Claim C7. In every reachable state of the index: a search on an empty corpus returns
  the empty list, and so does a search whose query has no terms; the constructor and
  \<^verbatim>\<open>add_documents\<close> end without an exception, the average length of an empty list
  of lengths being set to 0 without a division; \<^verbatim>\<open>_calculate_bm25_score\<close> never
  raises \<^verbatim>\<open>ZeroDivisionError\<close>, the search always returns a list, and when the average
  length is 0 that list is empty.
\<close>

theorem keyword_search_no_zero_division:
  "reachable segment kr \<Longrightarrow>
     (documents kr = [] \<longrightarrow> KeywordRetriever_search segment kr query top_k = Inr []) \<and>
     (preprocess_text segment kr query = [] \<longrightarrow>
        KeywordRetriever_search segment kr query top_k = Inr []) \<and>
     snd (KeywordRetriever_init segment stops docs0) = None \<and>
     snd (add_documents segment kr docs) = None \<and>
     calculate_bm25_score kr q i \<noteq> Inl ZeroDivisionError \<and>
     (\<exists>out. KeywordRetriever_search segment kr query top_k = Inr out) \<and>
     (avg_doc_length kr = 0 \<longrightarrow> KeywordRetriever_search segment kr query top_k = Inr [])"
proof -
  assume r: "reachable segment kr"
  from r have ok: "index_ok segment kr" by (rule reachable_index_ok)
  have a: "documents kr = [] \<longrightarrow> KeywordRetriever_search segment kr query top_k = Inr []"
    by (simp add: KeywordRetriever_search_def)
  have b: "preprocess_text segment kr query = [] \<longrightarrow>
        KeywordRetriever_search segment kr query top_k = Inr []"
    by (simp add: KeywordRetriever_search_def)
  have c: "snd (KeywordRetriever_init segment stops docs0) = None"
    by (simp add: init_fields)
  have d: "snd (add_documents segment kr docs) = None"
    using ok by (simp add: add_documents_ok)
  have e: "calculate_bm25_score kr q i \<noteq> Inl ZeroDivisionError"
  proof (cases "i < length (documents kr)")
    case True
    with ok show ?thesis by (simp add: calculate_bm25_score_ok)
  next
    case False
    with ok show ?thesis by (simp add: calculate_bm25_score_out_of_range)
  qed
  have f: "\<exists>out. KeywordRetriever_search segment kr query top_k = Inr out"
    using keyword_search_ok[OF ok, of query top_k] by blast
  have g: "avg_doc_length kr = 0 \<longrightarrow> KeywordRetriever_search segment kr query top_k = Inr []"
    using ok by (simp add: zero_avg_search_empty)
  from a b c d e f g show ?thesis by blast
qed

theorem keyword_search_no_zero_division_witness:
  "reachable py_split blank_kr \<and> avg_doc_length blank_kr = 0 \<and> documents blank_kr \<noteq> [] \<and>
   KeywordRetriever_search py_split blank_kr ''a b'' 5 = Inr [] \<and>
   calculate_bm25_score blank_kr [''a''] 0 \<noteq> Inl ZeroDivisionError \<and>
   snd (add_documents py_split blank_kr [mk_doc ''b'']) = None"
proof -
  have r: "reachable py_split blank_kr"
    unfolding blank_kr_def by (rule reachable_init)
  have docs: "documents blank_kr = [mk_doc ''a'']"
    by (simp add: blank_kr_def init_documents)
  have c: "corpus_of py_split blank_kr = [[]]"
    by (simp add: corpus_of_def blank_kr_def init_documents mk_doc_def
        preprocess_text_def py_split_def py_strip_def py_isspace_def)
  have z: "avg_doc_length blank_kr = 0"
    using reachable_index_ok[OF r] by (simp add: index_ok_def docs c spec_avg_len_def)
  from keyword_search_no_zero_division[OF r, of "''a b''" 5 "{}" None "[mk_doc ''b'']" "[''a'']" 0]
    r z docs
  show ?thesis by simp
qed

subsection \<open>Claims about the vector adapter\<close>

text \<open>
  Claim C5, as amended. \<^verbatim>\<open>VecRetriever.search\<close> drops every record whose content is
  the empty string (a record whose content is white space only is kept), then keeps of
  the remaining records the first one for every value of \<^verbatim>\<open>hash(content)\<close>, with its
  own source, score and metadata, in the incoming order. When no two different contents
  of the remaining records have the same hash, this is the deduplication by equality of
  the content strings.
\<close>

theorem vector_search_dedup:
  "vr_query self question top_k 0.5 = Inr raw \<Longrightarrow>
     VecRetriever_search hash self question top_k =
       Inr (keep_first_by (\<lambda>r. hash (content r)) (candidates raw)) \<and>
     (inj_on hash (content ` set (candidates raw)) \<longrightarrow>
        VecRetriever_search hash self question top_k =
          Inr (keep_first_by content (candidates raw))) \<and>
     candidates raw = filter (\<lambda>r. content r \<noteq> '''') (List.map_filter result_of_item raw)"
proof -
  assume q: "vr_query self question top_k 0.5 = Inr raw"
  have a: "VecRetriever_search hash self question top_k =
       Inr (keep_first_by (\<lambda>r. hash (content r)) (candidates raw))"
    using q by (simp add: VecRetriever_search_def collect_results_spec)
  have b: "VecRetriever_search hash self question top_k =
          Inr (keep_first_by content (candidates raw))"
    if "inj_on hash (content ` set (candidates raw))"
    using keep_first_by_inj[OF that] a by simp
  from a b show ?thesis by (simp add: candidates_def)
qed

theorem vector_search_dedup_witness:
  "vr_query dup_hits ''q'' 5 0.5 =
     Inr [PayloadItem \<lparr>p_text = Some ''d1'', p_source_file = Some ''A'', p_extra = []\<rparr> None,
          PayloadItem \<lparr>p_text = Some ''d1'', p_source_file = Some ''B'', p_extra = []\<rparr> None,
          PayloadItem \<lparr>p_text = Some ''d2'', p_source_file = Some ''C'', p_extra = []\<rparr> None] \<and>
   map (\<lambda>r. (content r, file_name r))
     (projr (VecRetriever_search sample_hash dup_hits ''q'' 5)) =
     [(''d1'', ''A''), (''d2'', ''C'')]"
proof -
  let ?raw = "[PayloadItem \<lparr>p_text = Some ''d1'', p_source_file = Some ''A'', p_extra = []\<rparr> None,
          PayloadItem \<lparr>p_text = Some ''d1'', p_source_file = Some ''B'', p_extra = []\<rparr> None,
          PayloadItem \<lparr>p_text = Some ''d2'', p_source_file = Some ''C'', p_extra = []\<rparr> None]"
  have h: "vr_query dup_hits ''q'' 5 0.5 = Inr ?raw" by (simp add: dup_hits_def)
  have c: "map (\<lambda>r. (content r, file_name r)) (candidates ?raw) =
           [(''d1'', ''A''), (''d1'', ''B''), (''d2'', ''C'')]"
    by (simp add: candidates_def List.map_filter_def result_of_item_def get_or_def)
  have i: "inj_on sample_hash (content ` set (candidates ?raw))"
  proof -
    have "content ` set (candidates ?raw) = {''d1'', ''d2''}"
      using arg_cong[OF c, of "\<lambda>xs. set (map fst xs)"] by (simp add: image_image)
    then show ?thesis by (simp add: sample_hash_def)
  qed
  have k: "map (\<lambda>r. (content r, file_name r)) (keep_first_by content (candidates ?raw)) =
           [(''d1'', ''A''), (''d2'', ''C'')]"
    by (simp add: keep_first_by_def candidates_def List.map_filter_def result_of_item_def
        get_or_def upt_conv_Cons)
  from vector_search_dedup[OF h, of sample_hash] i
  have "VecRetriever_search sample_hash dup_hits ''q'' 5 =
          Inr (keep_first_by content (candidates ?raw))" by blast
  with h k show ?thesis by simp
qed

theorem vector_search_blank_counterexample:
  "VecRetriever_search sample_hash blank_hit ''q'' 5 =
     Inr [\<lparr>file_name = ''A'', content = '' '',
           metadata = [(''text'', VStr '' ''), (''source_file'', VStr ''A'')],
           score = None, weighted_rrf_score = None, rerank_score = None,
           rerank_position = None\<rparr>] \<and>
   py_strip '' '' = ''''"
  by (simp add: VecRetriever_search_def blank_hit_def get_or_def payload_dict_def
      py_strip_def py_isspace_def)

subsection \<open>Claims about the size of the outputs\<close>

lemma length_py_slice_to: "0 \<le> n \<Longrightarrow> length (py_slice_to n xs) \<le> nat n"
  by (simp add: py_slice_to_def)

lemma length_format_fused: "format_fused di xs = Inr out \<Longrightarrow> length out = length xs"
proof (induction xs arbitrary: out)
  case Nil
  then show ?case by simp
next
  case (Cons x xs)
  obtain c s where x: "x = (c, s)" by (cases x)
  from Cons.prems x obtain r out' where
    "format_fused di xs = Inr out'" "out = r\<lparr>weighted_rrf_score := Some s\<rparr> # out'"
    by (auto split: option.splits sum.splits)
  with Cons.IH show ?case by simp
qed

lemma length_format_keyword: "format_keyword kr xs = Inr out \<Longrightarrow> length out = length xs"
proof (induction xs arbitrary: out)
  case Nil
  then show ?case by simp
next
  case (Cons x xs)
  obtain j s where x: "x = (j, s)" by (cases x)
  from Cons.prems x obtain doc out' where
    "format_keyword kr xs = Inr out'" "out = keyword_result doc s # out'"
    by (auto split: sum.splits)
  with Cons.IH show ?case by simp
qed

lemma length_rerank_with_weights:
  assumes "rerank_with_weights rr result_lists weights top_k = Inr out" and "0 \<le> top_k"
  shows "length out \<le> nat top_k"
proof -
  from assms(1) obtain ds di where
    "format_fused di (py_slice_to top_k (sorted_reverse snd ds)) = Inr out"
    by (auto simp: rerank_with_weights_def split: if_splits sum.splits)
  then have "length out = length (py_slice_to top_k (sorted_reverse snd ds))"
    by (rule length_format_fused)
  with length_py_slice_to[OF assms(2)] show ?thesis by simp
qed

lemma length_keyword_search:
  assumes "KeywordRetriever_search segment kr query top_k = Inr out" and "0 \<le> top_k"
  shows "length out \<le> nat top_k"
proof (cases "documents kr = [] \<or> preprocess_text segment kr query = []")
  case True
  with assms(1) have "out = []"
    by (auto simp: KeywordRetriever_search_def Let_def split: if_splits)
  then show ?thesis by simp
next
  case False
  with assms(1) obtain ds where
    "format_keyword kr (py_slice_to top_k (sorted_reverse snd ds)) = Inr out"
    by (auto simp: KeywordRetriever_search_def Let_def split: sum.splits)
  then have "length out = length (py_slice_to top_k (sorted_reverse snd ds))"
    by (rule length_format_keyword)
  with length_py_slice_to[OF assms(2)] show ?thesis by simp
qed

lemma length_candidates: "length (candidates raw) \<le> length raw"
proof -
  have "length (candidates raw) \<le> length (List.map_filter result_of_item raw)"
    unfolding candidates_def by (rule length_filter_le)
  also have "\<dots> \<le> length raw" by (simp add: List.map_filter_def)
  finally show ?thesis .
qed

lemma length_vector_search:
  assumes "VecRetriever_search hash vr query top_k = Inr out"
  shows "\<exists>raw. vr_query vr query top_k 0.5 = Inr raw \<and> length out \<le> length raw"
proof -
  from assms obtain raw where raw: "vr_query vr query top_k 0.5 = Inr raw"
    by (auto simp: VecRetriever_search_def split: sum.splits)
  with assms have "out = keep_first_by (\<lambda>r. hash (content r)) (candidates raw)"
    by (simp add: VecRetriever_search_def collect_results_spec)
  then have "length out \<le> length (candidates raw)" by (simp add: length_keep_first_by)
  with length_candidates[of raw] have "length out \<le> length raw" by linarith
  with raw show ?thesis by blast
qed

lemma length_reorder: "length (reorder results rank data) \<le> length data"
proof (induction data arbitrary: rank)
  case Nil
  show ?case by simp
next
  case (Cons item data)
  from Cons[of "Suc rank"] show ?case
    by (auto simp: Let_def split: option.splits intro: le_SucI)
qed

lemma length_external_rerank:
  assumes "PineconeCohereReranker_rerank ext query results top_n = Inr out"
    and "results \<noteq> []"
  shows "\<exists>docs k data. client ext (model ext) query docs k = Inr data \<and>
           k = min (case top_n of None \<Rightarrow> int (length results)
                    | Some t \<Rightarrow> if t = 0 then int (length results) else t)
                   (int (length results)) \<and>
           length out \<le> length data"
proof -
  let ?docs = "map (\<lambda>(i, item). (str_of_nat i, py_strip (content item))) (enumerate 0 results)"
  let ?k = "min (case top_n of None \<Rightarrow> int (length results)
                 | Some t \<Rightarrow> if t = 0 then int (length results) else t)
                (int (length results))"
  have n: "length ?docs = length results" by simp
  from assms have "(case client ext (model ext) query ?docs ?k of
                      Inl e \<Rightarrow> Inl e
                    | Inr data \<Rightarrow> Inr (reorder results 1 data)) = Inr out"
    unfolding PineconeCohereReranker_rerank_def Let_def n by simp
  then obtain data where d: "client ext (model ext) query ?docs ?k = Inr data"
    and o: "out = reorder results 1 data"
    by (cases "client ext (model ext) query ?docs ?k") auto
  from o have "length out \<le> length data" by (simp add: length_reorder)
  with d show ?thesis by blast
qed

lemma length_external_rerank_honoured:
  assumes r: "PineconeCohereReranker_rerank ext query results (Some t) = Inr out"
    and t: "1 \<le> t" and h: "honours_top_n (client ext)"
  shows "int (length out) \<le> t"
proof (cases "results = []")
  case True
  with r have "out = []" by (simp add: PineconeCohereReranker_rerank_def)
  with t show ?thesis by simp
next
  case False
  from length_external_rerank[OF r False] obtain docs k data where
    d: "client ext (model ext) query docs k = Inr data"
    and k: "k = min (if t = 0 then int (length results) else t) (int (length results))"
    and l: "length out \<le> length data"
    by auto
  from h d have "int (length data) \<le> max k 0" unfolding honours_top_n_def by blast
  moreover from k t have "k \<le> t" by simp
  ultimately show ?thesis using l t by linarith
qed

lemma length_hybrid_search:
  assumes s: "EnhancedHybridRetriever_search hash segment self query top_k = Inr out"
    and k: "0 \<le> top_k"
    and h: "\<forall>e. external_reranker self = Some e \<longrightarrow> honours_top_n (client e)"
  shows "length out \<le> nat top_k"
proof -
  from s obtain v kw fused where
    f: "rerank_with_weights (reranker self) [v, kw] [vector_weight self, keyword_weight self]
          top_k = Inr fused"
    and o: "(case external_reranker self of
               None \<Rightarrow> Inr fused
             | Some ext \<Rightarrow>
                 if fused \<noteq> [] then PineconeCohereReranker_rerank ext query fused (Some top_k)
                 else Inr fused) = Inr out"
    by (auto simp: EnhancedHybridRetriever_search_def split: sum.splits)
  from length_rerank_with_weights[OF f k] have lf: "length fused \<le> nat top_k" .
  show ?thesis
  proof (cases "external_reranker self")
    case None
    with o lf show ?thesis by simp
  next
    case (Some ext)
    show ?thesis
    proof (cases "fused = []")
      case True
      with o Some show ?thesis by simp
    next
      case False
      with lf have "0 < nat top_k" by (cases fused) auto
      then have t1: "1 \<le> top_k" by linarith
      from o Some False have
        "PineconeCohereReranker_rerank ext query fused (Some top_k) = Inr out" by simp
      from length_external_rerank_honoured[OF this t1] h Some
      have "int (length out) \<le> top_k" by simp
      then show ?thesis by linarith
    qed
  qed
qed

text \<open>
  Claim C6, as amended. For every \<open>top_k \<ge> 0\<close>, the keyword search and the fusion
  return at most \<open>top_k\<close> results. The vector adapter does not cut its list: it returns
  at most as many records as the dense search gave it. The external rerank returns at
  most as many results as the remote answer has entries; when \<open>top_n \<ge> 1\<close> and the
  remote answer never has more entries than asked for, that is at most \<open>top_n\<close>. The
  search of the orchestrator returns at most \<open>top_k\<close> results when the external reranker
  is absent or its client never answers with more entries than asked for.
\<close>

theorem stage_output_bounds:
  "(0 \<le> top_k \<longrightarrow> KeywordRetriever_search segment kr query top_k = Inr out_k \<longrightarrow>
      length out_k \<le> nat top_k) \<and>
   (0 \<le> top_k \<longrightarrow> rerank_with_weights rr result_lists weights top_k = Inr out_f \<longrightarrow>
      length out_f \<le> nat top_k) \<and>
   (VecRetriever_search hash vr query top_k = Inr out_v \<longrightarrow>
      (\<exists>raw. vr_query vr query top_k 0.5 = Inr raw \<and> length out_v \<le> length raw)) \<and>
   (PineconeCohereReranker_rerank ext query results top_n = Inr out_e \<longrightarrow> results \<noteq> [] \<longrightarrow>
      (\<exists>docs k data. client ext (model ext) query docs k = Inr data \<and>
         length out_e \<le> length data)) \<and>
   (PineconeCohereReranker_rerank ext query results (Some t) = Inr out_t \<longrightarrow> 1 \<le> t \<longrightarrow>
      honours_top_n (client ext) \<longrightarrow> int (length out_t) \<le> t) \<and>
   (0 \<le> top_k \<longrightarrow>
      (\<forall>e. external_reranker self = Some e \<longrightarrow> honours_top_n (client e)) \<longrightarrow>
      EnhancedHybridRetriever_search hash segment self query top_k = Inr out_s \<longrightarrow>
      length out_s \<le> nat top_k)"
proof (intro conjI impI)
  assume "0 \<le> top_k" "KeywordRetriever_search segment kr query top_k = Inr out_k"
  then show "length out_k \<le> nat top_k" by (simp add: length_keyword_search)
next
  assume "0 \<le> top_k" "rerank_with_weights rr result_lists weights top_k = Inr out_f"
  then show "length out_f \<le> nat top_k" by (simp add: length_rerank_with_weights)
next
  assume "VecRetriever_search hash vr query top_k = Inr out_v"
  then show "\<exists>raw. vr_query vr query top_k 0.5 = Inr raw \<and> length out_v \<le> length raw"
    by (rule length_vector_search)
next
  assume "PineconeCohereReranker_rerank ext query results top_n = Inr out_e" "results \<noteq> []"
  from length_external_rerank[OF this]
  show "\<exists>docs k data. client ext (model ext) query docs k = Inr data \<and>
         length out_e \<le> length data" by blast
next
  assume "PineconeCohereReranker_rerank ext query results (Some t) = Inr out_t" "1 \<le> t"
    "honours_top_n (client ext)"
  then show "int (length out_t) \<le> t" by (rule length_external_rerank_honoured)
next
  assume "0 \<le> top_k"
    "\<forall>e. external_reranker self = Some e \<longrightarrow> honours_top_n (client e)"
    "EnhancedHybridRetriever_search hash segment self query top_k = Inr out_s"
  then show "length out_s \<le> nat top_k" by (simp add: length_hybrid_search)
qed

lemma one_entry_client_honours: "honours_top_n one_entry_client"
  by (auto simp: honours_top_n_def one_entry_client_def)

lemma one_entry_rerank:
  "PineconeCohereReranker_rerank one_entry_reranker ''q'' [mk_result ''A'' ''d1''] (Some t) =
     Inr (if t < 0 then []
          else [(mk_result ''A'' ''d1'')\<lparr>rerank_score := Some 1, rerank_position := Some 1\<rparr>])"
  by (simp add: PineconeCohereReranker_rerank_def one_entry_reranker_def one_entry_client_def
      Let_def min_def)

theorem stage_output_bounds_witness:
  "(0::int) \<le> 1 \<and> (1::int) \<le> 1 \<and> honours_top_n (client one_entry_reranker) \<and>
   rerank_with_weights \<lparr>self_k = 0\<rparr>
     [[mk_result ''A'' ''d1'', mk_result ''A'' ''d2'']] [1] 1 =
     Inr [(mk_result ''A'' ''d1'')\<lparr>weighted_rrf_score := Some 1\<rparr>] \<and>
   length [(mk_result ''A'' ''d1'')\<lparr>weighted_rrf_score := Some 1\<rparr>] \<le> nat 1 \<and>
   PineconeCohereReranker_rerank one_entry_reranker ''q'' [mk_result ''A'' ''d1''] (Some 1) =
     Inr [(mk_result ''A'' ''d1'')\<lparr>rerank_score := Some 1, rerank_position := Some 1\<rparr>] \<and>
   int (length [(mk_result ''A'' ''d1'')\<lparr>rerank_score := Some 1, rerank_position := Some 1\<rparr>])
     \<le> 1"
proof -
  have h0: "(0::int) \<le> 1" and h1: "(1::int) \<le> 1" by simp_all
  have hon: "honours_top_n (client one_entry_reranker)"
    by (simp add: one_entry_reranker_def one_entry_client_honours)
  have f: "rerank_with_weights \<lparr>self_k = 0\<rparr>
     [[mk_result ''A'' ''d1'', mk_result ''A'' ''d2'']] [1] 1 =
     Inr [(mk_result ''A'' ''d1'')\<lparr>weighted_rrf_score := Some 1\<rparr>]"
    by (simp add: rerank_with_weights_def score_one_def py_div_def mk_result_def
        sorted_reverse_def py_slice_to_def Let_def)
  have e: "PineconeCohereReranker_rerank one_entry_reranker ''q'' [mk_result ''A'' ''d1''] (Some 1) =
     Inr [(mk_result ''A'' ''d1'')\<lparr>rerank_score := Some 1, rerank_position := Some 1\<rparr>]"
    by (simp add: one_entry_rerank)
  note t = stage_output_bounds[where top_k = 1 and rr = "\<lparr>self_k = 0\<rparr>"
      and result_lists = "[[mk_result ''A'' ''d1'', mk_result ''A'' ''d2'']]" and weights = "[1]"
      and out_f = "[(mk_result ''A'' ''d1'')\<lparr>weighted_rrf_score := Some 1\<rparr>]"
      and ext = one_entry_reranker and query = "''q''" and results = "[mk_result ''A'' ''d1'']"
      and t = 1
      and out_t = "[(mk_result ''A'' ''d1'')\<lparr>rerank_score := Some 1, rerank_position := Some 1\<rparr>]"]
  from t h0 f have a: "length [(mk_result ''A'' ''d1'')\<lparr>weighted_rrf_score := Some 1\<rparr>] \<le> nat 1"
    by blast
  from t h1 hon e have b:
    "int (length [(mk_result ''A'' ''d1'')\<lparr>rerank_score := Some 1, rerank_position := Some 1\<rparr>])
     \<le> 1"
    by blast
  from h0 h1 hon f e a b show ?thesis by blast
qed

theorem stage_bound_counterexample:
  "VecRetriever_search sample_hash two_hits ''q'' 1 =
     Inr [\<lparr>file_name = ''A'', content = ''d1'',
           metadata = [(''text'', VStr ''d1''), (''source_file'', VStr ''A'')],
           score = None, weighted_rrf_score = None, rerank_score = None,
           rerank_position = None\<rparr>,
          \<lparr>file_name = ''A'', content = ''d2'',
           metadata = [(''text'', VStr ''d2''), (''source_file'', VStr ''A'')],
           score = None, weighted_rrf_score = None, rerank_score = None,
           rerank_position = None\<rparr>] \<and>
   \<not> (2::nat) \<le> nat 1 \<and>
   honours_top_n (client one_entry_reranker) \<and>
   PineconeCohereReranker_rerank one_entry_reranker ''q'' [mk_result ''A'' ''d1''] (Some 0) =
     Inr [(mk_result ''A'' ''d1'')\<lparr>rerank_score := Some 1, rerank_position := Some 1\<rparr>] \<and>
   \<not> (1::nat) \<le> nat 0"
proof -
  have v: "VecRetriever_search sample_hash two_hits ''q'' 1 =
     Inr [\<lparr>file_name = ''A'', content = ''d1'',
           metadata = [(''text'', VStr ''d1''), (''source_file'', VStr ''A'')],
           score = None, weighted_rrf_score = None, rerank_score = None,
           rerank_position = None\<rparr>,
          \<lparr>file_name = ''A'', content = ''d2'',
           metadata = [(''text'', VStr ''d2''), (''source_file'', VStr ''A'')],
           score = None, weighted_rrf_score = None, rerank_score = None,
           rerank_position = None\<rparr>]"
    by (simp add: VecRetriever_search_def two_hits_def get_or_def sample_hash_def
        payload_dict_def)
  have h: "honours_top_n (client one_entry_reranker)"
    by (simp add: one_entry_reranker_def one_entry_client_honours)
  have e: "PineconeCohereReranker_rerank one_entry_reranker ''q'' [mk_result ''A'' ''d1''] (Some 0) =
     Inr [(mk_result ''A'' ''d1'')\<lparr>rerank_score := Some 1, rerank_position := Some 1\<rparr>]"
    by (simp add: one_entry_rerank)
  from v h e show ?thesis by simp
qed

subsection \<open>Claims about the construction of the retrieval manager\<close>

lemma create_external_reranker_fails:
  assumes "PineconeCohereReranker_init Pinecone
             (py_strip (if get_or pinecone_api_key '''' \<noteq> '''' then get_or pinecone_api_key ''''
                        else env_key))
             (Some (cfg_reranker_model config)) = Inl e"
  shows "create_external_reranker config Pinecone pinecone_api_key env_key = None"
  using assms by (simp add: create_external_reranker_def Let_def)

lemma hybrid_search_without_reranker:
  assumes "external_reranker self = None"
  shows "EnhancedHybridRetriever_search hash segment self query top_k =
     (case VecRetriever_search hash (vector_retriever self) query top_k of
        Inl e \<Rightarrow> Inl e
      | Inr vector_results \<Rightarrow>
        (case KeywordRetriever_search segment (keyword_retriever self) query top_k of
           Inl e \<Rightarrow> Inl e
         | Inr keyword_results \<Rightarrow>
             rerank_with_weights (reranker self) [vector_results, keyword_results]
               [vector_weight self, keyword_weight self] top_k))"
  using assms
  by (simp add: EnhancedHybridRetriever_search_def split: sum.splits)

text \<open>
  Claim C3. Whatever the import of the Pinecone package and the constructor of its
  client do, \<^verbatim>\<open>RetrievalManager.__init__\<close> returns a manager once the vector retriever
  is built: no exception of the reranker leaves it. When the construction of the
  reranker fails for the key at hand, the manager holds no external reranker, and its
  \<^verbatim>\<open>search\<close> is the weighted RRF fusion of the vector and the keyword results with the
  configured constant and weights, returned as fused.
\<close>

theorem reranker_failure_isolated:
  "\<exists>m. RetrievalManager_init segment stops Pinecone env_key config loaded (Inr vr)
          pinecone_api_key = Inr m \<and>
       rm_vector_retriever m = vr \<and>
       (\<forall>e. PineconeCohereReranker_init Pinecone
               (py_strip (if get_or pinecone_api_key '''' \<noteq> ''''
                          then get_or pinecone_api_key '''' else env_key))
               (Some (cfg_reranker_model config)) = Inl e \<longrightarrow>
            external_reranker (rm_hybrid_retriever m) = None \<and>
            (\<forall>hash query top_k.
               RetrievalManager_search hash segment m query top_k =
                 (case VecRetriever_search hash vr query top_k of
                    Inl e \<Rightarrow> Inl e
                  | Inr vector_results \<Rightarrow>
                    (case KeywordRetriever_search segment (rm_keyword_retriever m) query
                            top_k of
                       Inl e \<Rightarrow> Inl e
                     | Inr keyword_results \<Rightarrow>
                         rerank_with_weights \<lparr>self_k = cfg_rrf_k config\<rparr>
                           [vector_results, keyword_results]
                           [cfg_vector_weight config, cfg_keyword_weight config] top_k))))"
proof -
  let ?kr = "initialize_keyword_retriever segment
               (fst (KeywordRetriever_init segment stops None)) loaded"
  let ?ext = "create_external_reranker config Pinecone pinecone_api_key env_key"
  let ?h = "EnhancedHybridRetriever_init vr ?kr (Some (cfg_rrf_k config))
              (Some (cfg_vector_weight config)) (Some (cfg_keyword_weight config)) ?ext"
  let ?m = "\<lparr>rm_config = config, rm_vector_retriever = vr, rm_keyword_retriever = ?kr,
            rm_hybrid_retriever = ?h\<rparr>"
  have init: "RetrievalManager_init segment stops Pinecone env_key config loaded (Inr vr)
          pinecone_api_key = Inr ?m"
    by (simp add: RetrievalManager_init_def Let_def)
  have fields: "vector_retriever ?h = vr" "keyword_retriever ?h = ?kr"
    "reranker ?h = \<lparr>self_k = cfg_rrf_k config\<rparr>"
    "vector_weight ?h = cfg_vector_weight config"
    "keyword_weight ?h = cfg_keyword_weight config"
    "external_reranker ?h = ?ext"
    by (simp_all add: EnhancedHybridRetriever_init_def RRFReranker_init_def get_or_def)
  have "external_reranker (rm_hybrid_retriever ?m) = None \<and>
        (\<forall>hash query top_k.
               RetrievalManager_search hash segment ?m query top_k =
                 (case VecRetriever_search hash vr query top_k of
                    Inl e \<Rightarrow> Inl e
                  | Inr vector_results \<Rightarrow>
                    (case KeywordRetriever_search segment (rm_keyword_retriever ?m) query
                            top_k of
                       Inl e \<Rightarrow> Inl e
                     | Inr keyword_results \<Rightarrow>
                         rerank_with_weights \<lparr>self_k = cfg_rrf_k config\<rparr>
                           [vector_results, keyword_results]
                           [cfg_vector_weight config, cfg_keyword_weight config] top_k)))"
    if "PineconeCohereReranker_init Pinecone
               (py_strip (if get_or pinecone_api_key '''' \<noteq> ''''
                          then get_or pinecone_api_key '''' else env_key))
               (Some (cfg_reranker_model config)) = Inl e" for e
  proof -
    from that have none: "?ext = None" by (rule create_external_reranker_fails)
    with fields(6) have n: "external_reranker ?h = None" by simp
    have sel: "rm_hybrid_retriever ?m = ?h" "rm_keyword_retriever ?m = ?kr" by simp_all
    have "RetrievalManager_search hash segment ?m query top_k =
                 (case VecRetriever_search hash vr query top_k of
                    Inl e \<Rightarrow> Inl e
                  | Inr vector_results \<Rightarrow>
                    (case KeywordRetriever_search segment ?kr query top_k of
                       Inl e \<Rightarrow> Inl e
                     | Inr keyword_results \<Rightarrow>
                         rerank_with_weights \<lparr>self_k = cfg_rrf_k config\<rparr>
                           [vector_results, keyword_results]
                           [cfg_vector_weight config, cfg_keyword_weight config] top_k))"
      for hash query top_k
      unfolding RetrievalManager_search_def sel
        hybrid_search_without_reranker[OF n, of hash segment query top_k]
      unfolding fields(1-5) by (rule refl)
    with n show ?thesis unfolding sel by blast
  qed
  with init show ?thesis by (intro exI[of _ ?m]) simp
qed

theorem reranker_failure_isolated_witness:
  "PineconeCohereReranker_init failing_pinecone (py_strip ''key'')
     (Some (cfg_reranker_model RAGConfig_default)) = Inl UpstreamError \<and>
   (\<exists>m. RetrievalManager_init py_split {} failing_pinecone '''' RAGConfig_default sample_docs
           (Inr two_hits) (Some ''key'') = Inr m \<and>
        external_reranker (rm_hybrid_retriever m) = None \<and>
        RetrievalManager_search sample_hash py_split m ''value'' 5 =
          (case VecRetriever_search sample_hash two_hits ''value'' 5 of
             Inl e \<Rightarrow> Inl e
           | Inr vector_results \<Rightarrow>
             (case KeywordRetriever_search py_split (rm_keyword_retriever m) ''value'' 5 of
                Inl e \<Rightarrow> Inl e
              | Inr keyword_results \<Rightarrow>
                  rerank_with_weights \<lparr>self_k = 20\<rparr> [vector_results, keyword_results]
                    [0.5, 0.5] 5)))"
proof -
  have f: "PineconeCohereReranker_init failing_pinecone (py_strip ''key'')
     (Some (cfg_reranker_model RAGConfig_default)) = Inl UpstreamError"
    by (simp add: PineconeCohereReranker_init_def failing_pinecone_def py_strip_def
        py_isspace_def)
  then have f': "PineconeCohereReranker_init failing_pinecone
     (py_strip (if get_or (Some ''key'') '''' \<noteq> '''' then get_or (Some ''key'') '''' else ''''))
     (Some (cfg_reranker_model RAGConfig_default)) = Inl UpstreamError"
    by (simp add: get_or_def)
  have c: "cfg_rrf_k RAGConfig_default = 20" "cfg_vector_weight RAGConfig_default = 0.5"
    "cfg_keyword_weight RAGConfig_default = 0.5"
    by (simp_all add: RAGConfig_default_def)
  from reranker_failure_isolated[of py_split "{}" failing_pinecone "''''" RAGConfig_default
      sample_docs two_hits "Some ''key''"]
  obtain m where m: "RetrievalManager_init py_split {} failing_pinecone '''' RAGConfig_default
      sample_docs (Inr two_hits) (Some ''key'') = Inr m"
    and rest: "\<forall>e. PineconeCohereReranker_init failing_pinecone
               (py_strip (if get_or (Some ''key'') '''' \<noteq> ''''
                          then get_or (Some ''key'') '''' else ''''))
               (Some (cfg_reranker_model RAGConfig_default)) = Inl e \<longrightarrow>
            external_reranker (rm_hybrid_retriever m) = None \<and>
            (\<forall>hash query top_k.
               RetrievalManager_search hash py_split m query top_k =
                 (case VecRetriever_search hash two_hits query top_k of
                    Inl e \<Rightarrow> Inl e
                  | Inr vector_results \<Rightarrow>
                    (case KeywordRetriever_search py_split (rm_keyword_retriever m) query
                            top_k of
                       Inl e \<Rightarrow> Inl e
                     | Inr keyword_results \<Rightarrow>
                         rerank_with_weights \<lparr>self_k = cfg_rrf_k RAGConfig_default\<rparr>
                           [vector_results, keyword_results]
                           [cfg_vector_weight RAGConfig_default,
                            cfg_keyword_weight RAGConfig_default] top_k)))"
    by blast
  from rest f' have n: "external_reranker (rm_hybrid_retriever m) = None"
    and s: "RetrievalManager_search sample_hash py_split m ''value'' 5 =
                 (case VecRetriever_search sample_hash two_hits ''value'' 5 of
                    Inl e \<Rightarrow> Inl e
                  | Inr vector_results \<Rightarrow>
                    (case KeywordRetriever_search py_split (rm_keyword_retriever m) ''value'' 5 of
                       Inl e \<Rightarrow> Inl e
                     | Inr keyword_results \<Rightarrow>
                         rerank_with_weights \<lparr>self_k = cfg_rrf_k RAGConfig_default\<rparr>
                           [vector_results, keyword_results]
                           [cfg_vector_weight RAGConfig_default,
                            cfg_keyword_weight RAGConfig_default] 5))"
    by blast+
  from s have s': "RetrievalManager_search sample_hash py_split m ''value'' 5 =
          (case VecRetriever_search sample_hash two_hits ''value'' 5 of
             Inl e \<Rightarrow> Inl e
           | Inr vector_results \<Rightarrow>
             (case KeywordRetriever_search py_split (rm_keyword_retriever m) ''value'' 5 of
                Inl e \<Rightarrow> Inl e
              | Inr keyword_results \<Rightarrow>
                  rerank_with_weights \<lparr>self_k = 20\<rparr> [vector_results, keyword_results]
                    [0.5, 0.5] 5))"
    by (simp only: c)
  from f m n s' show ?thesis by blast
qed

end
